theory Spec2Isabelle
  imports Complex_Main
begin

section \<open>Paths\<close>

text \<open>
  A \<open>pathlib.Path\<close> is modelled by the list of its components below the root.
  Catalog file names are single components, so \<open>model_dir / filename\<close> appends one
  component. Directories are not modelled: the file system holds regular files only.
\<close>

type_synonym path = "string list"

definition joinpath :: "path \<Rightarrow> string \<Rightarrow> path" where
  "joinpath d f = d @ [f]"

definition path_name :: "path \<Rightarrow> string" where
  "path_name p = (if p = [] then [] else last p)"

definition starts_with :: "string \<Rightarrow> string \<Rightarrow> bool" where
  "starts_with s p = (take (length p) s = p)"

text \<open>\<open>sub in s\<close> on Python strings.\<close>

fun contains :: "string \<Rightarrow> string \<Rightarrow> bool" where
  "contains sub [] = (sub = [])"
| "contains sub (c # cs) = (starts_with (c # cs) sub \<or> contains sub cs)"

text \<open>\<open>str.rfind\<close>: the index of the last occurrence, \<open>None\<close> for Python's \<open>-1\<close>.\<close>

definition rfind :: "string \<Rightarrow> char \<Rightarrow> nat option" where
  "rfind s c =
     (if c \<in> set s
      then Some (length s - 1 - length (takeWhile (\<lambda>x. x \<noteq> c) (rev s)))
      else None)"

text \<open>\<open>PurePath.suffix\<close> and \<open>PurePath.stem\<close>: split the name at its last dot, unless
  that dot is the first or the last character.\<close>

definition path_suffix :: "path \<Rightarrow> string" where
  "path_suffix p =
     (let name = path_name p in
      case rfind name CHR ''.'' of
        None \<Rightarrow> []
      | Some i \<Rightarrow> if 0 < i \<and> i < length name - 1 then drop i name else [])"

definition path_stem :: "path \<Rightarrow> string" where
  "path_stem p =
     (let name = path_name p in
      case rfind name CHR ''.'' of
        None \<Rightarrow> name
      | Some i \<Rightarrow> if 0 < i \<and> i < length name - 1 then take i name else name)"

text \<open>\<open>PurePath.with_suffix\<close>; \<open>None\<close> stands for the \<open>ValueError\<close> it raises on an
  invalid suffix or an empty name.\<close>

definition with_suffix :: "path \<Rightarrow> string \<Rightarrow> path option" where
  "with_suffix p sfx =
     (let name = path_name p in
      if CHR ''/'' \<in> set sfx then None
      else if (sfx \<noteq> [] \<and> \<not> starts_with sfx ''.'') \<or> sfx = ''.'' then None
      else if name = [] then None
      else
        let old_suffix = path_suffix p;
            name' = (if old_suffix = [] then name @ sfx
                     else take (length name - length old_suffix) name @ sfx)
        in Some (butlast p @ [name']))"

text \<open>\<open>str.split(sep)\<close> for a one-character separator.\<close>

fun split_on :: "char \<Rightarrow> string \<Rightarrow> string list" where
  "split_on sep [] = [[]]"
| "split_on sep (c # cs) =
     (if c = sep then [] # split_on sep cs
      else (case split_on sep cs of
              [] \<Rightarrow> [[c]]
            | x # xs \<Rightarrow> (c # x) # xs))"

text \<open>The operating system resolving one component of a path: \<open>..\<close> steps to the
  parent (the root is its own parent), \<open>.\<close> and the empty component stay.\<close>

definition walk :: "path \<Rightarrow> string \<Rightarrow> path" where
  "walk p c = (if c = [] \<or> c = ''.'' then p
               else if c = ''..'' then butlast p
               else p @ [c])"

text \<open>\<open>os.path.join(d, name)\<close> as the operating system resolves it when the file is
  opened: an absolute \<open>name\<close> discards \<open>d\<close>.\<close>

definition os_join :: "path \<Rightarrow> string \<Rightarrow> path" where
  "os_join d name =
     (if starts_with name ''/'' then foldl walk [] (split_on CHR ''/'' name)
      else foldl walk d (split_on CHR ''/'' name))"

text \<open>\<open>p\<close> lies in the directory \<open>d\<close> or below it.\<close>

definition inside :: "path \<Rightarrow> path \<Rightarrow> bool" where
  "inside d p = (take (length d) p = d)"

section \<open>Python floats\<close>

text \<open>
  A finite IEEE double is a multiple of a power of two: \<open>Dbl m k\<close> stands for
  \<open>m / 2 ^ k\<close>. Every arithmetic operation computes the exact result and rounds it to a
  significand of 53 bits, to nearest and to even on a tie, as the hardware does. The
  exponent range is not modelled (no overflow to infinity, no subnormal numbers), and
  neither are infinities and NaN.
\<close>

datatype double = Dbl (mant: int) (expo: nat)

definition val :: "double \<Rightarrow> real" where
  "val x = real_of_int (mant x) / 2 ^ expo x"

text \<open>\<open>int.bit_length\<close>.\<close>

fun bit_length :: "nat \<Rightarrow> nat" where
  "bit_length n = (if n = 0 then 0 else Suc (bit_length (n div 2)))"

declare bit_length.simps [simp del]

definition round53 :: "int \<Rightarrow> nat \<Rightarrow> double" where
  "round53 m k =
     (let a = nat \<bar>m\<bar>; b = bit_length a in
      if b \<le> 53 then Dbl m k
      else
        let s = b - 53; q = a div 2 ^ s; r = a mod 2 ^ s; half = 2 ^ (s - 1);
            q' = (if half < r \<or> (r = half \<and> odd q) then q + 1 else q)
        in Dbl (sgn m * int (q' * 2 ^ s)) k)"

definition fadd :: "double \<Rightarrow> double \<Rightarrow> double" where
  "fadd x y =
     (let k = max (expo x) (expo y) in
      round53 (mant x * 2 ^ (k - expo x) + mant y * 2 ^ (k - expo y)) k)"

definition fsub :: "double \<Rightarrow> double \<Rightarrow> double" where
  "fsub x y =
     (let k = max (expo x) (expo y) in
      round53 (mant x * 2 ^ (k - expo x) - mant y * 2 ^ (k - expo y)) k)"

definition fabs :: "double \<Rightarrow> double" where
  "fabs x = Dbl \<bar>mant x\<bar> (expo x)"

text \<open>\<open>n / (1024**3)\<close> for a Python int \<open>n\<close>: the true quotient, correctly rounded.\<close>

definition div_gb :: "nat \<Rightarrow> double" where
  "div_gb n = round53 (int n) 30"

text \<open>The literal \<open>0.2\<close>, that is \<open>0x1.999999999999ap-3\<close>, and the integers \<open>0\<close>, \<open>1\<close>
  and \<open>2\<close> as floats.\<close>

definition lit_0_2 :: double where
  "lit_0_2 = Dbl 7205759403792794 55"

definition of_nat_f :: "nat \<Rightarrow> double" where
  "of_nat_f n = Dbl (int n) 0"

section \<open>Files, network and the state of the world\<close>

text \<open>
  A file has a size in bytes and a body: a tar-family archive or a zip archive with its
  members (regular files, each with its name and size), a gzip stream with the size of
  what it decompresses to, or anything else.
\<close>

type_synonym member = "string \<times> nat"

datatype body = Plain | Tar "member list" | Zip "member list" | Gz nat

datatype file_data = File (fsize: nat) (body: body)

text \<open>
  What one HTTP request does: \<open>TransportError\<close> raises a \<open>RequestException\<close> or an
  \<open>IOError\<close> before the destination is opened (connection error, timeout, non-2xx
  status), \<open>StreamError n\<close> raises one after \<open>n\<close> bytes were written, \<open>Complete f\<close> writes
  the whole of \<open>f\<close>, and \<open>Uncaught\<close> raises, before the destination is opened, an
  exception of another class, such as the \<open>ValueError\<close> of \<open>int\<close> on a
  \<open>Content-Length\<close> header that is no number.
\<close>

datatype response = TransportError | StreamError nat | Complete file_data | Uncaught

text \<open>
  What the archive library does with one member when it unpacks it: \<open>Whole\<close> writes the
  member in full, \<open>Broken None\<close> raises before the member's file is created,
  \<open>Broken (Some n)\<close> raises after \<open>n\<close> bytes of it were written.
\<close>

datatype unpacked = Whole | Broken "nat option"

text \<open>
  The world the downloader runs in: the regular files; the answer of \<open>os.statvfs\<close>
  (\<open>f_frsize\<close>, \<open>f_bavail\<close>) as it depends on the files, \<open>None\<close> when the call raises;
  the network, giving the response to the \<open>t\<close>-th request of the run; the archive
  library, giving what happens to a member of a given name unpacked into a given
  directory; the number of requests sent so far; and the names printed as suspicious by
  the extractor. The calls \<open>exists\<close>, \<open>stat\<close>, \<open>unlink\<close>, \<open>rename\<close> and \<open>mkdir\<close> of the
  runner do not fail.
\<close>

record world =
  files :: "path \<Rightarrow> file_data option"
  statvfs :: "(path \<Rightarrow> file_data option) \<Rightarrow> (nat \<times> nat) option"
  net :: "nat \<Rightarrow> string \<Rightarrow> response"
  unpacking :: "path \<Rightarrow> string \<Rightarrow> unpacked"
  requests :: nat
  suspicious :: "string list"

definition exists :: "world \<Rightarrow> path \<Rightarrow> bool" where
  "exists w p = (files w p \<noteq> None)"

definition st_size :: "world \<Rightarrow> path \<Rightarrow> nat" where
  "st_size w p = (case files w p of None \<Rightarrow> 0 | Some f \<Rightarrow> fsize f)"

definition unlink :: "world \<Rightarrow> path \<Rightarrow> world" where
  "unlink w p = w\<lparr>files := (files w)(p := None)\<rparr>"

definition write_file :: "world \<Rightarrow> path \<Rightarrow> file_data \<Rightarrow> world" where
  "write_file w p f = w\<lparr>files := (files w)(p \<mapsto> f)\<rparr>"

text \<open>\<open>Path.rename\<close>: the target is replaced.\<close>

definition rename :: "world \<Rightarrow> path \<Rightarrow> path \<Rightarrow> world" where
  "rename w src dst = w\<lparr>files := ((files w)(dst := files w src))(src := None)\<rparr>"

section \<open>The catalog\<close>

text \<open>The sizes in the catalog are float literals.\<close>

record file_info =
  url :: string
  extract_flag :: bool
  size_gb :: "double option"
  required :: bool

record model_config =
  dir :: path
  cfiles :: "(string \<times> file_info) list"

record downloader =
  models_dir :: path
  models :: "(string \<times> model_config) list"

section \<open>check_disk_space and verify_file\<close>

definition check_disk_space :: "world \<Rightarrow> double \<Rightarrow> bool" where
  "check_disk_space w required_gb =
     (case statvfs w (files w) of
        None \<Rightarrow> True
      | Some (f_frsize, f_bavail) \<Rightarrow>
          (let free_gb = div_gb (f_frsize * f_bavail) in val free_gb \<ge> val required_gb))"

text \<open>\<open>expected_size_gb\<close> is \<open>None\<close> when the entry declares no size; Python's
  \<open>if expected_size_gb and ...\<close> is also false for a declared size of zero.\<close>

definition verify_file :: "world \<Rightarrow> path \<Rightarrow> double option \<Rightarrow> bool" where
  "verify_file w filepath expected_size_gb =
     (if \<not> exists w filepath then False
      else
        let size_gb = div_gb (st_size w filepath) in
        (case expected_size_gb of
           None \<Rightarrow> True
         | Some e \<Rightarrow>
             if mant e \<noteq> 0 \<and> val (fabs (fsub size_gb e)) > val lit_0_2 then False
             else True))"

section \<open>download_file\<close>

text \<open>
  One iteration of \<open>for attempt in range(max_retries)\<close> per call. The request is counted,
  then its response decides: an exception of a class the \<open>except\<close> clause names removes
  the destination if it exists and retries or gives up; a completed stream is written
  to the destination, which is accepted when it is not empty and otherwise left in place
  for the next attempt; an exception of another class leaves the function, which is the
  result \<open>None\<close>.
\<close>

function download_loop ::
  "world \<Rightarrow> string \<Rightarrow> path \<Rightarrow> nat \<Rightarrow> nat \<Rightarrow> (bool \<times> world) option" where
  "download_loop w u filepath max_retries attempt =
     (if attempt < max_retries then
        (let w1 = w\<lparr>requests := requests w + 1\<rparr> in
         case net w (requests w) u of
           TransportError \<Rightarrow>
             (let w2 = (if exists w1 filepath then unlink w1 filepath else w1) in
              if attempt < max_retries - 1
              then download_loop w2 u filepath max_retries (attempt + 1)
              else Some (False, w2))
         | StreamError n \<Rightarrow>
             (let w2 = write_file w1 filepath (File n Plain);
                  w3 = (if exists w2 filepath then unlink w2 filepath else w2) in
              if attempt < max_retries - 1
              then download_loop w3 u filepath max_retries (attempt + 1)
              else Some (False, w3))
         | Complete f \<Rightarrow>
             (let w2 = write_file w1 filepath f in
              if st_size w2 filepath > 0 then Some (True, w2)
              else download_loop w2 u filepath max_retries (attempt + 1))
         | Uncaught \<Rightarrow> None)
      else Some (False, w))"
  by pat_completeness auto
termination
  by (relation "measure (\<lambda>(w, u, filepath, max_retries, attempt). max_retries - attempt)") auto

declare download_loop.simps [simp del]

definition download_file :: "world \<Rightarrow> string \<Rightarrow> path \<Rightarrow> nat \<Rightarrow> (bool \<times> world) option" where
  "download_file w u filepath max_retries = download_loop w u filepath max_retries 0"

section \<open>extract_archive\<close>

text \<open>The loop over the member names: a suspicious name is printed, and the loop goes
  on to the next name.\<close>

fun check_members :: "world \<Rightarrow> string list \<Rightarrow> world" where
  "check_members w [] = w"
| "check_members w (name # names) =
     (if starts_with name ''/'' \<or> contains ''..'' name
      then check_members (w\<lparr>suspicious := suspicious w @ [name]\<rparr>) names
      else check_members w names)"

text \<open>\<open>TarFile.extractall(path)\<close>, called with no member list and no filter: the members
  of the archive are unpacked in order, each at \<open>os.path.join(path, name)\<close>, until the
  library raises. The result tells whether it came to the end.\<close>

fun tar_extractall :: "world \<Rightarrow> member list \<Rightarrow> path \<Rightarrow> bool \<times> world" where
  "tar_extractall w [] d = (True, w)"
| "tar_extractall w ((name, n) # ms) d =
     (case unpacking w d name of
        Whole \<Rightarrow> tar_extractall (write_file w (os_join d name) (File n Plain)) ms d
      | Broken None \<Rightarrow> (False, w)
      | Broken (Some k) \<Rightarrow> (False, write_file w (os_join d name) (File k Plain)))"

text \<open>\<open>ZipFile.extractall(path)\<close>: the same, but the library itself drops the empty,
  \<open>.\<close> and \<open>..\<close> components of a member name.\<close>

definition zip_target :: "path \<Rightarrow> string \<Rightarrow> path" where
  "zip_target d name =
     d @ filter (\<lambda>c. c \<noteq> [] \<and> c \<noteq> ''.'' \<and> c \<noteq> ''..'') (split_on CHR ''/'' name)"

fun zip_extractall :: "world \<Rightarrow> member list \<Rightarrow> path \<Rightarrow> bool \<times> world" where
  "zip_extractall w [] d = (True, w)"
| "zip_extractall w ((name, n) # ms) d =
     (case unpacking w d name of
        Whole \<Rightarrow> zip_extractall (write_file w (zip_target d name) (File n Plain)) ms d
      | Broken None \<Rightarrow> (False, w)
      | Broken (Some k) \<Rightarrow> (False, write_file w (zip_target d name) (File k Plain)))"

text \<open>
  Opening a missing file, or a file that is no archive of the kind its name announces,
  raises, and so may the unpacking; the \<open>except\<close> clause turns that into \<open>False\<close> and
  leaves what was written. The gzip branch has opened its output file before it reads;
  an empty file reads as an empty stream.
\<close>

definition extract_archive :: "world \<Rightarrow> path \<Rightarrow> path \<Rightarrow> bool \<times> world" where
  "extract_archive w filepath extract_dir =
     (if path_suffix filepath = ''.tar'' \<or> contains ''.tar.'' (path_name filepath) then
        (case files w filepath of
           Some (File n (Tar members)) \<Rightarrow>
             (let w1 = check_members w (map fst members) in
              tar_extractall w1 members extract_dir)
         | _ \<Rightarrow> (False, w))
      else if path_suffix filepath = ''.zip'' then
        (case files w filepath of
           Some (File n (Zip members)) \<Rightarrow>
             (let w1 = check_members w (map fst members) in
              zip_extractall w1 members extract_dir)
         | _ \<Rightarrow> (False, w))
      else if path_suffix filepath = ''.gz'' then
        (let output_file = joinpath extract_dir (path_stem filepath) in
         case files w filepath of
           None \<Rightarrow> (False, w)
         | Some (File n b) \<Rightarrow>
             if n = 0 then (True, write_file w output_file (File 0 Plain))
             else (case b of
                     Gz m \<Rightarrow> (True, write_file w output_file (File m Plain))
                   | _ \<Rightarrow> (False, write_file w output_file (File 0 Plain))))
      else (False, w))"

section \<open>download_model_category\<close>

text \<open>
  The branch of the loop body an entry ends in, named after what the code prints there
  (\<open>Extracted\<close> is printed by \<open>extract_archive\<close>).
\<close>

datatype outcome =
    AlreadyExists | Downloaded | Extracted
  | FailedExtract | VerificationFailed | FailedDownload

text \<open>The variables of the loop: the world, the two flags, and the outcomes so far.\<close>

record progress =
  now :: world
  success :: bool
  required_success :: bool
  report :: "(string \<times> outcome) list"

definition failed :: "progress \<Rightarrow> world \<Rightarrow> string \<Rightarrow> bool \<Rightarrow> outcome \<Rightarrow> progress" where
  "failed s w filename is_required oc =
     s\<lparr>now := w, success := False,
       required_success := (if is_required then False else required_success s),
       report := report s @ [(filename, oc)]\<rparr>"

definition succeeded :: "progress \<Rightarrow> world \<Rightarrow> string \<Rightarrow> outcome \<Rightarrow> progress" where
  "succeeded s w filename oc = s\<lparr>now := w, report := report s @ [(filename, oc)]\<rparr>"

text \<open>The body of \<open>for filename, info in model_config["files"].items()\<close>. \<open>None\<close> is an
  exception that nothing catches: the \<open>ValueError\<close> of \<open>with_suffix\<close>, or the exception
  that left \<open>download_file\<close>.\<close>

definition process_file :: "path \<Rightarrow> progress \<Rightarrow> string \<times> file_info \<Rightarrow> progress option" where
  "process_file model_dir s entry =
     (let filename = fst entry; info = snd entry;
          filepath = joinpath model_dir filename;
          is_required = required info in
      if verify_file (now s) filepath (size_gb info)
      then Some (succeeded s (now s) filename AlreadyExists)
      else
        (case with_suffix filepath (path_suffix filepath @ ''.tmp'') of
           None \<Rightarrow> None
         | Some temp_filepath \<Rightarrow>
             (case download_file (now s) (url info) temp_filepath 3 of
                None \<Rightarrow> None
              | Some (ok, w1) \<Rightarrow>
                  if ok then
                    if verify_file w1 temp_filepath (size_gb info) then
                      if extract_flag info then
                        (let (extracted, w2) = extract_archive w1 temp_filepath model_dir in
                         if extracted
                         then Some (succeeded s (unlink w2 temp_filepath) filename Extracted)
                         else Some (failed s w2 filename is_required FailedExtract))
                      else Some (succeeded s (rename w1 temp_filepath filepath) filename
                                   Downloaded)
                    else Some (failed s w1 filename is_required VerificationFailed)
                  else Some (failed s w1 filename is_required FailedDownload))))"

fun run_files :: "path \<Rightarrow> progress \<Rightarrow> (string \<times> file_info) list \<Rightarrow> progress option" where
  "run_files model_dir s [] = Some s"
| "run_files model_dir s (entry # entries) =
     (case process_file model_dir s entry of
        None \<Rightarrow> None
      | Some s' \<Rightarrow> run_files model_dir s' entries)"

text \<open>\<open>info.get("size_gb", 0)\<close>, and the running total of these sizes: \<open>sum\<close> and the
  \<open>+=\<close> loop alike add one float after the other, starting from \<open>0\<close>.\<close>

definition size_or_0 :: "file_info \<Rightarrow> double" where
  "size_or_0 info = (case size_gb info of None \<Rightarrow> of_nat_f 0 | Some g \<Rightarrow> g)"

definition total_size_of :: "(string \<times> file_info) list \<Rightarrow> double" where
  "total_size_of fs = foldl fadd (of_nat_f 0) (map (\<lambda>entry. size_or_0 (snd entry)) fs)"

text \<open>
  The result is the returned verdict with the final loop variables, which \<open>start\<close>
  initialises. The two early returns report nothing and leave the world as it is.
\<close>

definition start :: "world \<Rightarrow> progress" where
  "start w = \<lparr>now = w, success = True, required_success = True, report = []\<rparr>"

definition download_model_category :: "downloader \<Rightarrow> world \<Rightarrow> string \<Rightarrow> (bool \<times> progress) option" where
  "download_model_category d w category =
     (case map_of (models d) category of
        None \<Rightarrow> Some (False, start w)
      | Some model_config \<Rightarrow>
          (let model_dir = dir model_config;
               total_size = total_size_of (cfiles model_config) in
           if \<not> check_disk_space w (fadd total_size (of_nat_f 1)) then Some (False, start w)
           else
             (case run_files model_dir (start w) (cfiles model_config) of
                None \<Rightarrow> None
              | Some s \<Rightarrow> Some (required_success s, s))))"

section \<open>download_all_models\<close>

text \<open>The loop over the categories, with the verdict of each category kept in order.\<close>

fun run_categories ::
  "downloader \<Rightarrow> world \<Rightarrow> bool \<Rightarrow> (string \<times> bool) list \<Rightarrow> string list
     \<Rightarrow> (bool \<times> (string \<times> bool) list \<times> world) option" where
  "run_categories d w all_required_success verdicts [] =
     Some (all_required_success, verdicts, w)"
| "run_categories d w all_required_success verdicts (category # categories) =
     (case download_model_category d w category of
        None \<Rightarrow> None
      | Some (ok, s) \<Rightarrow>
          run_categories d (now s) (if \<not> ok then False else all_required_success)
            (verdicts @ [(category, ok)]) categories)"

text \<open>The total over the whole catalog runs through the files of all categories in
  one accumulator.\<close>

definition catalog_size :: "downloader \<Rightarrow> double" where
  "catalog_size d =
     foldl fadd (of_nat_f 0)
       (concat (map (\<lambda>entry. map (\<lambda>e. size_or_0 (snd e)) (cfiles (snd entry))) (models d)))"

definition download_all_models ::
  "downloader \<Rightarrow> world \<Rightarrow> (bool \<times> (string \<times> bool) list \<times> world) option" where
  "download_all_models d w =
     (let total_size = catalog_size d in
      if \<not> check_disk_space w (fadd total_size (of_nat_f 2)) then Some (False, [], w)
      else run_categories d w True [] (map fst (models d)))"

section \<open>Well-formed catalogs\<close>

text \<open>A file name of the catalog is one path component that names a file.\<close>

definition plain_name :: "string \<Rightarrow> bool" where
  "plain_name f = (f \<noteq> [] \<and> f \<noteq> ''.'' \<and> f \<noteq> ''..'' \<and> CHR ''/'' \<notin> set f)"

definition plain_names :: "(string \<times> file_info) list \<Rightarrow> bool" where
  "plain_names fs = list_all (\<lambda>entry. plain_name (fst entry)) fs"

definition plain_catalog :: "downloader \<Rightarrow> bool" where
  "plain_catalog d = list_all (\<lambda>entry. plain_names (cfiles (snd entry))) (models d)"

definition temp_path :: "path \<Rightarrow> string \<Rightarrow> path" where
  "temp_path model_dir filename = joinpath model_dir (filename @ ''.tmp'')"

section \<open>Reading the runs\<close>

definition is_failure :: "outcome \<Rightarrow> bool" where
  "is_failure oc = (oc = FailedExtract \<or> oc = VerificationFailed \<or> oc = FailedDownload)"

text \<open>An entry reported as present: found valid on disk, or downloaded and moved to its
  final path.\<close>

definition is_present :: "outcome \<Rightarrow> bool" where
  "is_present oc = (oc = AlreadyExists \<or> oc = Downloaded)"

text \<open>
  In the words of the specification, an entry fails terminally in a world when its final
  file does not verify there and the fetch fails, or the fetched file does not verify,
  or the entry is marked for extraction and the extraction fails. This is stated with
  the fetcher, the verifier and the extractor alone, not with the loop of the runner.
\<close>

definition entry_fails :: "world \<Rightarrow> path \<Rightarrow> string \<times> file_info \<Rightarrow> bool" where
  "entry_fails w model_dir entry =
     (\<not> verify_file w (joinpath model_dir (fst entry)) (size_gb (snd entry))
      \<and> (case download_file w (url (snd entry)) (temp_path model_dir (fst entry)) 3 of
            None \<Rightarrow> False
          | Some (ok, w1) \<Rightarrow>
              \<not> ok
              \<or> \<not> verify_file w1 (temp_path model_dir (fst entry)) (size_gb (snd entry))
              \<or> (extract_flag (snd entry)
                  \<and> \<not> fst (extract_archive w1 (temp_path model_dir (fst entry)) model_dir))))"

text \<open>
  In the same words, what handling one entry does to the world: nothing when the final
  file verifies; otherwise the fetch into the temporary path and, when the fetched file
  verifies, either the extraction, after which the temporary archive is deleted if the
  extraction succeeded, or the move to the final path. \<open>None\<close> is an exception that the
  fetcher does not catch. \<open>after_entries\<close> handles the entries of a list in order.
\<close>

definition entry_after :: "world \<Rightarrow> path \<Rightarrow> string \<times> file_info \<Rightarrow> world option" where
  "entry_after w model_dir entry =
     (if verify_file w (joinpath model_dir (fst entry)) (size_gb (snd entry)) then Some w
      else
        (case download_file w (url (snd entry)) (temp_path model_dir (fst entry)) 3 of
           None \<Rightarrow> None
         | Some (ok, w1) \<Rightarrow>
             if ok \<and> verify_file w1 (temp_path model_dir (fst entry)) (size_gb (snd entry))
             then
               if extract_flag (snd entry) then
                 (case extract_archive w1 (temp_path model_dir (fst entry)) model_dir of
                    (extracted, w2) \<Rightarrow>
                      Some (if extracted then unlink w2 (temp_path model_dir (fst entry))
                            else w2))
               else Some (rename w1 (temp_path model_dir (fst entry))
                            (joinpath model_dir (fst entry)))
             else Some w1))"

fun after_entries :: "path \<Rightarrow> world \<Rightarrow> (string \<times> file_info) list \<Rightarrow> world option" where
  "after_entries model_dir w [] = Some w"
| "after_entries model_dir w (entry # entries) =
     (case entry_after w model_dir entry of
        None \<Rightarrow> None
      | Some w' \<Rightarrow> after_entries model_dir w' entries)"

text \<open>The largest exact difference that the comparison with the float \<open>0.2\<close> lets
  pass: half a unit in the last place above that float.\<close>

definition tolerance :: real where
  "tolerance = 14411518807585589 / 2 ^ 56"


text \<open>No file name of the category is the temporary name of another.\<close>

definition no_alias :: "string list \<Rightarrow> bool" where
  "no_alias names = list_all (\<lambda>f. list_all (\<lambda>f'. f \<noteq> f' @ ''.tmp'') names) names"

text \<open>Two runs of a category, the second in the world the first has left; and the
  number of requests the second run sends.\<close>

definition run_twice :: "downloader \<Rightarrow> world \<Rightarrow> string \<Rightarrow> (progress \<times> progress) option" where
  "run_twice d w category =
     (case download_model_category d w category of
        None \<Rightarrow> None
      | Some (v1, s1) \<Rightarrow>
          (case download_model_category d (now s1) category of
             None \<Rightarrow> None
           | Some (v2, s2) \<Rightarrow> Some (s1, s2)))"

definition second_run_requests :: "downloader \<Rightarrow> world \<Rightarrow> string \<Rightarrow> nat option" where
  "second_run_requests d w category =
     (case run_twice d w category of
        None \<Rightarrow> None
      | Some (s1, s2) \<Rightarrow> Some (requests (now s2) - requests (now s1)))"

text \<open>
  The categories run one after the other: \<open>ws\<close> are the worlds before, between and
  after the runs, \<open>vs\<close> what \<open>download_model_category\<close> returned in each.
\<close>

definition category_chain :: "downloader \<Rightarrow> string list \<Rightarrow> world list \<Rightarrow> bool list \<Rightarrow> bool" where
  "category_chain d cs ws vs =
     (length ws = Suc (length cs) \<and> length vs = length cs
      \<and> (\<forall>k < length cs.
            \<exists>s. download_model_category d (ws ! k) (cs ! k) = Some (vs ! k, s)
                 \<and> ws ! Suc k = now s))"

section \<open>Example worlds\<close>

text \<open>A disk with no files and 100 GB free, behind a network that refuses every request,
  with an archive library that unpacks every member.\<close>

definition quiet_world :: world where
  "quiet_world = \<lparr>files = Map.empty, statvfs = (\<lambda>fs. Some (4096, 26214400)),
     net = (\<lambda>t u. TransportError), unpacking = (\<lambda>d name. Whole), requests = 0,
     suspicious = []\<rparr>"

definition weights_path :: path where
  "weights_path = [''content'', ''models'', ''proteinmpnn'', ''weights.pt'']"

definition one_gb_world :: world where
  "one_gb_world = write_file quiet_world weights_path (File 1073741824 Plain)"

definition low_world :: world where
  "low_world = write_file quiet_world weights_path (File 858993460 Plain)"

text \<open>A file of 2 GiB, and the float literal \<open>2.2\<close>.\<close>

definition two_gb_world :: world where
  "two_gb_world = write_file quiet_world weights_path (File 2147483648 Plain)"

definition lit_2_2 :: double where
  "lit_2_2 = Dbl 4953959590107546 51"

text \<open>The AlphaFold entry of the catalog, and a network that serves a tar archive of
  3.5 GB for it.\<close>

definition alphafold_dir :: path where
  "alphafold_dir = [''content'', ''models'', ''alphafold'']"

definition alphafold_info :: file_info where
  "alphafold_info = \<lparr>url = ''https://storage.googleapis.com/alphafold/alphafold_params_2022-12-06.tar'',
     extract_flag = True, size_gb = Some (Dbl 7 1), required = True\<rparr>"

definition alphafold_archive :: file_data where
  "alphafold_archive = File 3758096384 (Tar [(''params_model_1.npz'', 1024)])"

definition serving_world :: world where
  "serving_world = quiet_world\<lparr>net := (\<lambda>t u. Complete alphafold_archive)\<rparr>"

text \<open>The same entry under the name of its archive, so that the temporary name contains
  \<open>.tar.\<close>, in a category of its own.\<close>

definition tarball_config :: model_config where
  "tarball_config = \<lparr>dir = alphafold_dir,
     cfiles = [(''alphafold_params.tar'', alphafold_info)]\<rparr>"

definition tarball_downloader :: downloader where
  "tarball_downloader = \<lparr>models_dir = [''content'', ''models''],
     models = [(''alphafold'', tarball_config)]\<rparr>"

text \<open>The world after that entry has been downloaded from \<open>serving_world\<close>, unpacked
  and its archive deleted.\<close>

definition tarball_unpacked :: world where
  "tarball_unpacked =
     unlink
       (write_file
          (write_file (serving_world\<lparr>requests := 1\<rparr>)
             (temp_path alphafold_dir ''alphafold_params.tar'') alphafold_archive)
          (joinpath alphafold_dir ''params_model_1.npz'') (File 1024 Plain))
       (temp_path alphafold_dir ''alphafold_params.tar'')"




text \<open>A network whose every stream completes with no bytes.\<close>

definition empty_stream_world :: world where
  "empty_stream_world = quiet_world\<lparr>net := (\<lambda>t u. Complete (File 0 Plain))\<rparr>"

text \<open>A tar archive with one member that climbs out of the directory it is unpacked
  into, and one that stays.\<close>

definition escape_archive :: path where
  "escape_archive = joinpath alphafold_dir ''weights.tar''"

definition escape_world :: world where
  "escape_world = write_file quiet_world escape_archive
     (File 20480 (Tar [(''../../escape.txt'', 7), (''ok.txt'', 5)]))"

text \<open>The first ProteinMPNN entry of the catalog, a network that serves 0.5 GB for it,
  and the same entry with no declared size on a disk where the file is there but empty.\<close>

definition mpnn_dir :: path where
  "mpnn_dir = [''content'', ''models'', ''proteinmpnn'']"

definition mpnn_info :: file_info where
  "mpnn_info = \<lparr>url = ''https://files.ipd.uw.edu/pub/training_sets/proteinmpnn_v_48_020.pt'',
     extract_flag = False, size_gb = Some (Dbl 1 1), required = True\<rparr>"

definition mpnn_weights :: file_data where
  "mpnn_weights = File 536870912 Plain"

definition mpnn_world :: world where
  "mpnn_world = quiet_world\<lparr>net := (\<lambda>t u. Complete mpnn_weights)\<rparr>"

definition unsized_info :: file_info where
  "unsized_info = mpnn_info\<lparr>size_gb := None\<rparr>"

definition unsized_downloader :: downloader where
  "unsized_downloader = \<lparr>models_dir = [''content'', ''models''],
     models = [(''proteinmpnn'',
                \<lparr>dir = mpnn_dir, cfiles = [(''proteinmpnn_v_48_020.pt'', unsized_info)]\<rparr>)]\<rparr>"

definition empty_file_world :: world where
  "empty_file_world =
     write_file quiet_world (joinpath mpnn_dir ''proteinmpnn_v_48_020.pt'') (File 0 Plain)"

text \<open>The ProteinMPNN category with its first entry alone, required as in the catalog and
  optional; and a disk with no free block.\<close>

definition mpnn_config :: model_config where
  "mpnn_config = \<lparr>dir = mpnn_dir, cfiles = [(''proteinmpnn_v_48_020.pt'', mpnn_info)]\<rparr>"

definition mpnn_downloader :: downloader where
  "mpnn_downloader = \<lparr>models_dir = [''content'', ''models''],
     models = [(''proteinmpnn'', mpnn_config)]\<rparr>"

definition optional_info :: file_info where
  "optional_info = mpnn_info\<lparr>required := False\<rparr>"

definition optional_config :: model_config where
  "optional_config = \<lparr>dir = mpnn_dir, cfiles = [(''proteinmpnn_v_48_020.pt'', optional_info)]\<rparr>"

definition optional_downloader :: downloader where
  "optional_downloader = \<lparr>models_dir = [''content'', ''models''],
     models = [(''proteinmpnn'', optional_config)]\<rparr>"

definition full_disk_world :: world where
  "full_disk_world = mpnn_world\<lparr>statvfs := (\<lambda>fs. Some (4096, 0))\<rparr>"

text \<open>The ProteinMPNN category with both entries of the catalog, behind a network that
  answers the first with a header \<open>int\<close> cannot read and serves the second.\<close>

definition ligand_info :: file_info where
  "ligand_info = \<lparr>url = ''https://files.ipd.uw.edu/pub/training_sets/ligandmpnn_v_32_010_25.pt'',
     extract_flag = False, size_gb = Some (Dbl 1 1), required = True\<rparr>"

definition pair_config :: model_config where
  "pair_config = \<lparr>dir = mpnn_dir,
     cfiles = [(''proteinmpnn_v_48_020.pt'', mpnn_info),
               (''ligandmpnn_v_32_010_25.pt'', ligand_info)]\<rparr>"

definition pair_downloader :: downloader where
  "pair_downloader = \<lparr>models_dir = [''content'', ''models''],
     models = [(''proteinmpnn'', pair_config)]\<rparr>"

definition garbled_world :: world where
  "garbled_world = quiet_world\<lparr>net :=
     (\<lambda>t u. if u = url ligand_info then Complete mpnn_weights else Uncaught)\<rparr>"

text \<open>The disk with the empty file again, now with 1.5 GB free.\<close>

definition tight_world :: world where
  "tight_world = empty_file_world\<lparr>statvfs := (\<lambda>fs. Some (4096, 393216))\<rparr>"

section \<open>Properties\<close>

subsection \<open>Rounding to 53 bits\<close>

lemma bit_length_le: "(bit_length n \<le> k) = (n < 2 ^ k)"
proof (induction n arbitrary: k rule: bit_length.induct)
  case (1 n)
  show ?case
  proof (cases "n = 0")
    case True
    then show ?thesis by (simp add: bit_length.simps)
  next
    case False
    then have bl: "bit_length n = Suc (bit_length (n div 2))"
      by (subst bit_length.simps) simp
    show ?thesis
    proof (cases k)
      case 0
      with False bl show ?thesis by simp
    next
      case (Suc k')
      have "(bit_length (n div 2) \<le> k') = (n div 2 < 2 ^ k')"
        using False by (rule "1.IH")
      also have "\<dots> = (n < 2 ^ Suc k')"
        by (simp add: div_less_iff_less_mult mult.commute)
      finally show ?thesis using bl Suc by simp
    qed
  qed
qed

lemma round53_small: "\<bar>m\<bar> < 2 ^ 53 \<Longrightarrow> round53 m k = Dbl m k"
proof -
  assume "\<bar>m\<bar> < 2 ^ 53"
  then have "nat \<bar>m\<bar> < 2 ^ 53"
    by (simp add: nat_less_iff)
  then have "bit_length (nat \<bar>m\<bar>) \<le> 53"
    by (simp only: bit_length_le)
  then show ?thesis
    by (simp add: round53_def Let_def)
qed

lemma div_gb_small: "n < 2 ^ 53 \<Longrightarrow> div_gb n = Dbl (int n) 30"
  unfolding div_gb_def
  by (rule round53_small) (simp add: of_nat_less_iff [of n "2 ^ 53", where ?'a = int, simplified])

text \<open>The magnitude of the rounded significand, over the natural numbers.\<close>

lemma threshold_exact:
  fixes a k :: nat
  assumes "a < 2 ^ 53"
  shows "(7205759403792794 * 2 ^ k < a * 2 ^ 55) = (14411518807585589 * 2 ^ k < a * 2 ^ 56)"
proof (cases "k \<le> 55")
  case True
  then obtain j where j: "55 = k + j"
    using le_Suc_ex by blast
  have p55: "(2::nat) ^ 55 = 2 ^ k * 2 ^ j"
    by (simp only: j power_add)
  have "(2::nat) ^ 56 = 2 ^ 55 * 2"
    by simp
  then have p56: "(2::nat) ^ 56 = 2 ^ k * (2 * 2 ^ j)"
    by (simp only: p55 mult.assoc mult.commute [of _ 2])
  have "(7205759403792794 * 2 ^ k < a * (2 ^ k * 2 ^ j)) = (7205759403792794 < a * 2 ^ j)"
    by (simp add: mult.commute mult.left_commute)
  moreover have "(14411518807585589 * 2 ^ k < a * (2 ^ k * (2 * 2 ^ j)))
                   = (14411518807585589 < 2 * (a * 2 ^ j))"
    by (simp add: mult.commute mult.left_commute)
  moreover have "(7205759403792794 < a * 2 ^ j) = (14411518807585589 < 2 * (a * 2 ^ j))"
    by linarith
  ultimately show ?thesis
    unfolding p55 p56 by simp
next
  case False
  define j where "j = k - 56"
  have j: "k = 56 + j"
    using False by (simp add: j_def)
  have pk: "(2::nat) ^ k = 2 ^ 56 * 2 ^ j"
    by (simp only: j power_add)
  have big: "(1::nat) \<le> 2 ^ j" by simp
  have l: "\<not> 7205759403792794 * (2 ^ 56 * 2 ^ j) < a * 2 ^ 55"
  proof -
    have "a * 2 ^ 55 < 2 ^ 53 * 2 ^ 55" using assms by simp
    also have "\<dots> \<le> 7205759403792794 * 2 ^ 56 * 1" by simp
    also have "\<dots> \<le> 7205759403792794 * 2 ^ 56 * 2 ^ j"
      using big by (intro mult_le_mono2)
    finally show ?thesis by (simp add: mult.assoc)
  qed
  have r: "\<not> 14411518807585589 * (2 ^ 56 * 2 ^ j) < a * 2 ^ 56"
  proof -
    have "a * 2 ^ 56 < 2 ^ 53 * 2 ^ 56" using assms by simp
    also have "\<dots> \<le> 14411518807585589 * 2 ^ 56 * 1" by simp
    also have "\<dots> \<le> 14411518807585589 * 2 ^ 56 * 2 ^ j"
      using big by (intro mult_le_mono2)
    finally show ?thesis by (simp add: mult.assoc)
  qed
  from l r show ?thesis unfolding pk by simp
qed


lemma threshold_rounded:
  fixes a k s q r q' :: nat
  assumes lo: "2 ^ 52 * 2 ^ s \<le> a" and hi: "a < 2 ^ 53 * 2 ^ s" and s: "1 \<le> s"
    and q: "q = a div 2 ^ s" and r: "r = a mod 2 ^ s"
    and q': "q' = (if 2 ^ (s - 1) < r \<or> (r = 2 ^ (s - 1) \<and> odd q) then q + 1 else q)"
  shows "(7205759403792794 * 2 ^ k < q' * 2 ^ s * 2 ^ 55)
           = (14411518807585589 * 2 ^ k < a * 2 ^ 56)"
proof -
  define P :: nat where "P = 2 ^ (s - 1)"
  define E :: nat where "E = 2 ^ 55"
  have P: "0 < P" and E: "0 < E"
    by (simp_all add: P_def E_def)
  have s2: "(2::nat) ^ s = 2 * P"
    using s unfolding P_def by (cases s) simp_all
  have e56: "(2::nat) ^ 56 = 2 * E"
    by (simp add: E_def)
  have a_eq: "a = q * (2 * P) + r"
    unfolding q r s2 by (rule div_mult_mod_eq [symmetric])
  have rlt: "r < 2 * P"
    using P by (simp add: r s2)
  have qlo: "4503599627370496 \<le> q"
  proof -
    have "4503599627370496 * (2 * P) div (2 * P) \<le> a div (2 * P)"
      using lo unfolding s2 by (intro div_le_mono) simp
    then show ?thesis using P by (simp add: q s2)
  qed
  have qhi: "q < 9007199254740992"
  proof -
    have "a < 9007199254740992 * (2 * P)"
      using hi unfolding s2 by simp
    then show ?thesis
      using P unfolding q s2 by (simp add: div_less_iff_less_mult)
  qed
  have q'lo: "q \<le> q'" and q'hi: "q' \<le> q + 1"
    by (simp_all add: q')
  consider (eq) "k = s + 55" | (gt) j where "k = s + 55 + Suc j" | (lt) j where "s + 55 = k + Suc j"
  proof (cases "k = s + 55")
    case True
    then show ?thesis by (rule eq)
  next
    case ne: False
    show ?thesis
    proof (cases "k < s + 55")
      case True
      then have "s + 55 = k + Suc (s + 55 - k - 1)" by simp
      then show ?thesis by (rule lt)
    next
      case False
      with ne have "k = s + 55 + Suc (k - (s + 55) - 1)" by simp
      then show ?thesis by (rule gt)
    qed
  qed
  then show ?thesis
  proof cases
    case eq
    have pk: "(2::nat) ^ k = 2 * P * E"
      by (simp only: eq power_add s2 E_def)
    have L: "(7205759403792794 * (2 * P * E) < q' * (2 * P) * E) = (7205759403792794 < q')"
      using P E by simp
    have R: "(14411518807585589 * (2 * P * E) < a * (2 * E)) = (14411518807585589 * P < a)"
      using E by (simp add: mult.assoc mult.left_commute)
    define X :: nat where "X = q * P"
    have qP: "q * (2 * P) = 2 * X"
      by (simp add: X_def)
    have "(7205759403792794 < q') = (14411518807585589 * P < 2 * X + r)"
    proof (cases "q = 7205759403792794")
      case True
      have "\<not> odd (7205759403792794::nat)" by simp
      with True have "q' = (if P < r then q + 1 else q)"
        by (simp add: q' P_def)
      moreover have "X = 7205759403792794 * P"
        using True by (simp add: X_def)
      ultimately show ?thesis using True by auto
    next
      case False
      show ?thesis
      proof (cases "q < 7205759403792794")
        case True
        then have "q + 1 \<le> 7205759403792794" by simp
        then have "(q + 1) * P \<le> 7205759403792794 * P"
          by (rule mult_le_mono1)
        then have "X + P \<le> 7205759403792794 * P"
          by (simp add: X_def algebra_simps)
        with True q'hi rlt show ?thesis by linarith
      next
        case ge: False
        with False have "7205759403792795 \<le> q" by simp
        then have "7205759403792795 * P \<le> q * P"
          by (rule mult_le_mono1)
        then have "7205759403792795 * P \<le> X"
          by (simp add: X_def)
        with ge False q'lo P show ?thesis by linarith
      qed
    qed
    then show ?thesis
      unfolding pk s2 e56 E_def [symmetric] L R by (simp only: a_eq qP)
  next
    case (gt j)
    define J :: nat where "J = 2 ^ j"
    have J: "1 \<le> J" by (simp add: J_def)
    have pk: "(2::nat) ^ k = 2 * P * E * (2 * J)"
      by (simp only: gt power_add s2 E_def J_def power_Suc)
    have L: "\<not> 7205759403792794 * (2 * P * E * (2 * J)) < q' * (2 * P) * E"
    proof -
      have "q' \<le> 7205759403792794 * 2 * 1" using q'hi qhi by simp
      also have "\<dots> \<le> 7205759403792794 * 2 * J"
        using J by (intro mult_le_mono2)
      finally have "q' * (2 * P * E) \<le> 7205759403792794 * 2 * J * (2 * P * E)"
        by (rule mult_le_mono1)
      then show ?thesis by (simp only: mult_ac not_less)
    qed
    have R: "\<not> 14411518807585589 * (2 * P * E * (2 * J)) < a * (2 * E)"
    proof -
      have "a \<le> 9007199254740992 * (2 * P)"
        using hi unfolding s2 by simp
      also have "\<dots> \<le> 14411518807585589 * (2 * P) * 1" by simp
      also have "\<dots> \<le> 14411518807585589 * (2 * P) * J"
        using J by (intro mult_le_mono2)
      finally have "a * (2 * E) \<le> 14411518807585589 * (2 * P) * J * (2 * E)"
        by (rule mult_le_mono1)
      then show ?thesis by (simp only: mult_ac not_less)
    qed
    from L R show ?thesis
      unfolding pk s2 e56 E_def [symmetric] by blast
  next
    case (lt j)
    define J :: nat where "J = 2 ^ j"
    have J: "1 \<le> J" by (simp add: J_def)
    have "(2::nat) ^ (s + 55) = 2 ^ (k + Suc j)"
      by (simp only: lt)
    then have pse: "2 * P * E = 2 ^ k * (2 * J)"
      by (simp only: power_add s2 E_def J_def power_Suc)
    have L: "7205759403792794 * 2 ^ k < q' * (2 ^ k * (2 * J))"
    proof -
      have "7205759403792794 * 2 ^ k < (4503599627370496 * 2 * 1) * (2::nat) ^ k" by simp
      also have "\<dots> \<le> (q' * 2 * J) * 2 ^ k"
        using qlo q'lo J by (intro mult_le_mono1 mult_le_mono) simp_all
      finally show ?thesis by (simp only: mult_ac)
    qed
    have R: "14411518807585589 * 2 ^ k < a * (2 * E)"
    proof -
      have "14411518807585589 * 2 ^ k < 4503599627370496 * (2 * ((2::nat) ^ k * (2 * 1)))" by simp
      also have "\<dots> \<le> 4503599627370496 * (2 * (2 ^ k * (2 * J)))"
        using J by (intro mult_le_mono2)
      also have "\<dots> = 4503599627370496 * (2 * P) * (2 * E)"
        unfolding pse [symmetric] by (simp add: algebra_simps)
      also have "\<dots> \<le> a * (2 * E)"
        using lo unfolding s2 by (intro mult_le_mono1) simp
      finally show ?thesis .
    qed
    have "q' * 2 ^ s * 2 ^ 55 = q' * (2 * P * E)"
      unfolding s2 E_def [symmetric] by (simp only: mult.assoc)
    then have eqn: "q' * 2 ^ s * 2 ^ 55 = q' * (2 ^ k * (2 * J))"
      by (simp only: pse)
    from L R show ?thesis
      unfolding e56 eqn by blast
  qed
qed


lemma frac_less_nat:
  fixes x y i j :: nat
  shows "(real x / 2 ^ i < real y / 2 ^ j) = (x * 2 ^ j < y * 2 ^ i)"
proof -
  have "(real x / 2 ^ i < real y / 2 ^ j) = (real x * 2 ^ j < real y * 2 ^ i)"
    by (simp add: field_simps)
  also have "\<dots> = (real (x * 2 ^ j) < real (y * 2 ^ i))"
    by simp
  also have "\<dots> = (x * 2 ^ j < y * 2 ^ i)"
    by (rule of_nat_less_iff)
  finally show ?thesis .
qed

text \<open>What \<open>round53\<close> does to a significand of more than 53 bits.\<close>

lemma round53_large:
  assumes "\<not> bit_length (nat \<bar>m\<bar>) \<le> 53"
  obtains s q r q' :: nat where
    "2 ^ 52 * 2 ^ s \<le> nat \<bar>m\<bar>" "nat \<bar>m\<bar> < 2 ^ 53 * 2 ^ s" "1 \<le> s"
    "q = nat \<bar>m\<bar> div 2 ^ s" "r = nat \<bar>m\<bar> mod 2 ^ s"
    "q' = (if 2 ^ (s - 1) < r \<or> (r = 2 ^ (s - 1) \<and> odd q) then q + 1 else q)"
    "val (fabs (round53 m k)) = real (q' * 2 ^ s) / 2 ^ k"
proof -
  define a where "a = nat \<bar>m\<bar>"
  define b where "b = bit_length a"
  define s where "s = b - 53"
  define q where "q = a div 2 ^ s"
  define r where "r = a mod 2 ^ s"
  define q' where "q' = (if 2 ^ (s - 1) < r \<or> (r = 2 ^ (s - 1) \<and> odd q) then q + 1 else q)"
  from assms have b: "53 < b" by (simp add: a_def b_def)
  then have s: "1 \<le> s" and bs: "b = 53 + s" by (simp_all add: s_def)
  have "\<not> bit_length a \<le> 52 + s"
    using bs by (simp add: b_def)
  then have lo: "2 ^ 52 * 2 ^ s \<le> a"
    by (simp add: bit_length_le power_add)
  have "bit_length a \<le> 53 + s"
    using bs by (simp add: b_def)
  then have hi: "a < 2 ^ 53 * 2 ^ s"
    by (simp add: bit_length_le power_add)
  have "(0::nat) < 2 ^ 52 * 2 ^ s" by simp
  with lo have "a \<noteq> 0" by linarith
  then have m: "m \<noteq> 0" by (auto simp: a_def)
  have "round53 m k = Dbl (sgn m * int (q' * 2 ^ s)) k"
    unfolding round53_def Let_def q'_def q_def r_def s_def b_def a_def
    using assms by simp
  moreover have "\<bar>sgn m * int (q' * 2 ^ s)\<bar> = int (q' * 2 ^ s)"
    using m by (simp add: abs_mult)
  ultimately have "val (fabs (round53 m k)) = real (q' * 2 ^ s) / 2 ^ k"
    by (simp add: fabs_def val_def)
  with lo hi s show ?thesis
    using that [of s q r q'] by (simp add: a_def q_def r_def q'_def)
qed

lemma round53_threshold:
  "(val lit_0_2 < val (fabs (round53 m k))) = (tolerance < \<bar>real_of_int m\<bar> / 2 ^ k)"
proof -
  define a where "a = nat \<bar>m\<bar>"
  have am: "\<bar>real_of_int m\<bar> = real a"
    by (simp add: a_def)
  have lit: "val lit_0_2 = real 7205759403792794 / 2 ^ 55"
    by (simp add: val_def lit_0_2_def)
  have tol: "tolerance = real 14411518807585589 / 2 ^ 56"
    by (simp add: tolerance_def)
  show ?thesis
  proof (cases "bit_length a \<le> 53")
    case True
    then have small: "a < 2 ^ 53"
      by (simp only: bit_length_le)
    have v: "val (fabs (round53 m k)) = real a / 2 ^ k"
      using True by (simp add: round53_def Let_def a_def fabs_def val_def)
    show ?thesis
      unfolding v am lit tol frac_less_nat by (rule threshold_exact [OF small])
  next
    case False
    then have "\<not> bit_length (nat \<bar>m\<bar>) \<le> 53" by (simp add: a_def)
    then obtain s q r q' :: nat where p:
      "2 ^ 52 * 2 ^ s \<le> nat \<bar>m\<bar>" "nat \<bar>m\<bar> < 2 ^ 53 * 2 ^ s" "1 \<le> s"
      "q = nat \<bar>m\<bar> div 2 ^ s" "r = nat \<bar>m\<bar> mod 2 ^ s"
      "q' = (if 2 ^ (s - 1) < r \<or> (r = 2 ^ (s - 1) \<and> odd q) then q + 1 else q)"
      "val (fabs (round53 m k)) = real (q' * 2 ^ s) / 2 ^ k"
      by (rule round53_large)
    have eq: "real (q' * 2 ^ s) / 2 ^ k = real (q' * 2 ^ s) / 2 ^ k" ..
    show ?thesis
      unfolding am lit tol p(7) frac_less_nat a_def mult.assoc [symmetric]
      by (rule threshold_rounded [OF p(1-6)])
  qed
qed

lemma val_fsub_exact:
  "real_of_int (mant x * 2 ^ (max (expo x) (expo y) - expo x)
                  - mant y * 2 ^ (max (expo x) (expo y) - expo y))
     / 2 ^ max (expo x) (expo y)
   = val x - val y"
proof -
  define K where "K = max (expo x) (expo y)"
  have kx: "(2::real) ^ K = 2 ^ (K - expo x) * 2 ^ expo x"
    and ky: "(2::real) ^ K = 2 ^ (K - expo y) * 2 ^ expo y"
    by (simp_all add: K_def power_add [symmetric])
  have "real_of_int (mant x * 2 ^ (K - expo x) - mant y * 2 ^ (K - expo y)) / 2 ^ K
          = real_of_int (mant x) * 2 ^ (K - expo x) / 2 ^ K
            - real_of_int (mant y) * 2 ^ (K - expo y) / 2 ^ K"
    by (simp add: diff_divide_distrib)
  also have "real_of_int (mant x) * 2 ^ (K - expo x) / 2 ^ K = val x"
    by (subst kx) (simp add: val_def)
  also have "real_of_int (mant y) * 2 ^ (K - expo y) / 2 ^ K = val y"
    by (subst ky) (simp add: val_def)
  finally show ?thesis by (simp add: K_def)
qed

lemma fsub_threshold:
  "(val lit_0_2 < val (fabs (fsub x y))) = (tolerance < \<bar>val x - val y\<bar>)"
proof -
  define K where "K = max (expo x) (expo y)"
  define D where "D = mant x * 2 ^ (K - expo x) - mant y * 2 ^ (K - expo y)"
  have e: "real_of_int D / 2 ^ K = val x - val y"
    unfolding D_def K_def by (rule val_fsub_exact)
  have "\<bar>real_of_int D\<bar> / 2 ^ K = \<bar>real_of_int D / 2 ^ K\<bar>"
    by simp
  then have a: "\<bar>real_of_int D\<bar> / 2 ^ K = \<bar>val x - val y\<bar>"
    by (simp only: e)
  have "fsub x y = round53 D K"
    by (simp add: fsub_def Let_def D_def K_def)
  then show ?thesis
    by (simp only: round53_threshold a)
qed


lemma div_gb_large:
  assumes "2 ^ 53 \<le> n"
  shows "8388608 \<le> val (div_gb n)"
proof -
  have nb: "\<not> bit_length (nat \<bar>int n\<bar>) \<le> 53"
    using assms by (simp add: bit_length_le)
  then obtain s q r q' :: nat where p:
      "2 ^ 52 * 2 ^ s \<le> nat \<bar>int n\<bar>" "nat \<bar>int n\<bar> < 2 ^ 53 * 2 ^ s" "1 \<le> s"
      "q = nat \<bar>int n\<bar> div 2 ^ s" "r = nat \<bar>int n\<bar> mod 2 ^ s"
      "q' = (if 2 ^ (s - 1) < r \<or> (r = 2 ^ (s - 1) \<and> odd q) then q + 1 else q)"
      "val (fabs (round53 (int n) 30)) = real (q' * 2 ^ s) / 2 ^ 30"
    by (rule round53_large)
  have "2 ^ 52 * 2 ^ s div 2 ^ s \<le> n div 2 ^ s"
    using p(1) by (intro div_le_mono) simp
  then have qlo: "2 ^ 52 \<le> q"
    using p(4) by simp
  have "(2::nat) ^ 1 \<le> 2 ^ s"
    using p(3) by (intro power_increasing) simp_all
  then have "2 ^ 52 * 2 \<le> q' * 2 ^ s"
    using qlo p(6) by (intro mult_le_mono) auto
  then have "real (2 ^ 52 * 2) \<le> real (q' * 2 ^ s)"
    by (rule of_nat_mono)
  then have "8388608 \<le> real (q' * 2 ^ s) / 2 ^ 30"
    by (simp add: field_simps)
  moreover have "0 \<le> mant (round53 (int n) 30)"
    by (simp add: round53_def Let_def sgn_if)
  then have "val (fabs (round53 (int n) 30)) = val (round53 (int n) 30)"
    by (simp add: fabs_def val_def)
  ultimately show ?thesis
    using p(7) by (simp add: div_gb_def)
qed

subsection \<open>verify_file\<close>

lemma verify_file_Some:
  "files w p = Some f \<Longrightarrow>
     verify_file w p expected =
       (case expected of None \<Rightarrow> True
        | Some e \<Rightarrow> mant e = 0 \<or> \<bar>val (div_gb (fsize f)) - val e\<bar> \<le> tolerance)"
  by (auto simp: verify_file_def exists_def st_size_def fsub_threshold split: option.splits)

lemma verify_file_None: "files w p = None \<Longrightarrow> \<not> verify_file w p expected"
  by (simp add: verify_file_def exists_def)

lemma val_div_gb: "n < 2 ^ 53 \<Longrightarrow> val (div_gb n) = real n / 1024 ^ 3"
  by (simp add: div_gb_small val_def)

lemma val_Dbl: "val (Dbl m k) = real_of_int m / 2 ^ k"
  by (simp add: val_def)

text \<open>
  Claim C6, as the code has it: for an existing file and a declared expected size other
  than zero, \<open>verify_file\<close> passes exactly when the size in GB, as a float, differs
  from the declared float by at most \<open>tolerance\<close>, which is 0.2 and the half unit in
  the last place that the float comparison lets pass. Below \<open>2 ^ 53\<close> bytes the size in
  GB is exact. With an expected size of 1.0 GB the file passes for every size from 0.8 GB
  to 1.2 GB and fails at 0.79 GB and below and at 1.21 GB and above.
\<close>

theorem verify_file_tolerance:
  assumes "files w p = Some f"
  defines "g \<equiv> real (fsize f) / 1024 ^ 3"
  shows "(mant e \<noteq> 0 \<longrightarrow>
            verify_file w p (Some e) = (\<bar>val (div_gb (fsize f)) - val e\<bar> \<le> tolerance))
       \<and> (fsize f < 2 ^ 53 \<longrightarrow> val (div_gb (fsize f)) = g)
       \<and> (0.8 \<le> g \<and> g \<le> 1.2 \<longrightarrow> verify_file w p (Some (of_nat_f 1)))
       \<and> (g \<le> 0.79 \<or> 1.21 \<le> g \<longrightarrow> \<not> verify_file w p (Some (of_nat_f 1)))"
proof -
  have v: "verify_file w p (Some e') = (mant e' = 0 \<or> \<bar>val (div_gb (fsize f)) - val e'\<bar> \<le> tolerance)"
    for e'
    using assms(1) by (simp add: verify_file_Some)
  have one: "val (of_nat_f 1) = 1" "mant (of_nat_f 1) \<noteq> 0"
    by (simp_all add: of_nat_f_def val_def)
  have tol: "0.2 \<le> tolerance" "tolerance < 0.21"
    by (simp_all add: tolerance_def)
  have small: "val (div_gb (fsize f)) = g" if "fsize f < 2 ^ 53"
    using that by (simp add: val_div_gb g_def)
  have pass: "\<bar>val (div_gb (fsize f)) - 1\<bar> \<le> tolerance" if "0.8 \<le> g \<and> g \<le> 1.2"
  proof -
    from that have "real (fsize f) < 2 ^ 53"
      by (simp add: g_def)
    then have "fsize f < 2 ^ 53"
      by (metis of_nat_less_iff of_nat_numeral of_nat_power)
    then have "val (div_gb (fsize f)) = g" by (rule small)
    with that tol(1) show ?thesis
      by (simp add: abs_le_iff)
  qed
  have fail: "\<not> \<bar>val (div_gb (fsize f)) - 1\<bar> \<le> tolerance" if "g \<le> 0.79 \<or> 1.21 \<le> g"
  proof (cases "fsize f < 2 ^ 53")
    case True
    then have "val (div_gb (fsize f)) = g" by (rule small)
    with that tol(2) show ?thesis
      by (auto simp: abs_le_iff)
  next
    case False
    then have "8388608 \<le> val (div_gb (fsize f))"
      by (intro div_gb_large) simp
    with tol(2) show ?thesis
      by (simp add: abs_le_iff)
  qed
  have a: "mant e \<noteq> 0 \<longrightarrow>
            verify_file w p (Some e) = (\<bar>val (div_gb (fsize f)) - val e\<bar> \<le> tolerance)"
    by (simp add: v)
  have b: "fsize f < 2 ^ 53 \<longrightarrow> val (div_gb (fsize f)) = g"
    using small by blast
  have c: "0.8 \<le> g \<and> g \<le> 1.2 \<longrightarrow> verify_file w p (Some (of_nat_f 1))"
    using pass unfolding v one by blast
  have d: "g \<le> 0.79 \<or> 1.21 \<le> g \<longrightarrow> \<not> verify_file w p (Some (of_nat_f 1))"
    using fail one(2) unfolding v one(1) by blast
  from a b c d show ?thesis
    by blast
qed

theorem verify_file_tolerance_witness:
  "files low_world weights_path = Some (File 858993460 Plain)
   \<and> mant (of_nat_f 1) \<noteq> 0
   \<and> fsize (File 858993460 Plain) < 2 ^ 53
   \<and> (0.8::real) \<le> real 858993460 / 1024 ^ 3 \<and> real 858993460 / 1024 ^ 3 \<le> (1.2::real)
   \<and> val (div_gb 858993460) = real 858993460 / 1024 ^ 3
   \<and> \<bar>val (div_gb 858993460) - val (of_nat_f 1)\<bar> \<le> tolerance
   \<and> verify_file low_world weights_path (Some (of_nat_f 1))"
proof -
  have h1: "files low_world weights_path = Some (File 858993460 Plain)"
    by (simp add: low_world_def write_file_def)
  have h2: "mant (of_nat_f 1) \<noteq> 0"
    by (simp add: of_nat_f_def)
  have h3: "fsize (File 858993460 Plain) < 2 ^ 53"
    by simp
  have h4: "(0.8::real) \<le> real 858993460 / 1024 ^ 3 \<and> real 858993460 / 1024 ^ 3 \<le> (1.2::real)"
    by simp
  from verify_file_tolerance [OF h1, of "of_nat_f 1"] h1 h2 h3 h4 show ?thesis
    by auto
qed

text \<open>A file of 2 GiB against a declared \<open>2.2\<close>: the difference of the two floats is
  above the float \<open>0.2\<close>, and \<open>verify_file\<close> fails.\<close>

lemma verify_file_two_point_two:
  "\<not> verify_file two_gb_world weights_path (Some lit_2_2)"
proof -
  have "files two_gb_world weights_path = Some (File 2147483648 Plain)"
    by (simp add: two_gb_world_def write_file_def)
  moreover have "val (div_gb 2147483648) = 2"
    by (simp add: val_div_gb)
  moreover have "val lit_2_2 = 4953959590107546 / 2 ^ 51" "mant lit_2_2 \<noteq> 0"
    by (simp_all add: lit_2_2_def val_def)
  ultimately show ?thesis
    by (simp add: verify_file_Some tolerance_def)
qed

text \<open>The claim as stated fails for a declared size of zero: a file of 1 GB passes.\<close>

theorem verify_file_zero_size_counterexample:
  "exists one_gb_world weights_path
   \<and> verify_file one_gb_world weights_path (Some (of_nat_f 0))
   \<and> \<not> \<bar>real (st_size one_gb_world weights_path) / 1024 ^ 3 - val (of_nat_f 0)\<bar> \<le> 0.2"
  by (simp add: verify_file_def exists_def st_size_def one_gb_world_def write_file_def
      quiet_world_def of_nat_f_def val_def)

subsection \<open>Paths and the temporary name\<close>

lemma path_name_joinpath [simp]: "path_name (joinpath d f) = f"
  by (simp add: path_name_def joinpath_def)

lemma butlast_joinpath [simp]: "butlast (joinpath d f) = d"
  by (simp add: joinpath_def)

lemma rfind_tmp: "rfind (f @ ''.tmp'') CHR ''.'' = Some (length f)"
  by (simp add: rfind_def)

lemma path_suffix_tmp: "f \<noteq> [] \<Longrightarrow> path_suffix (joinpath d (f @ ''.tmp'')) = ''.tmp''"
  by (simp add: path_suffix_def rfind_tmp)

lemma rfind_Some:
  assumes "rfind s c = Some i"
  shows "i < length s \<and> s ! i = c"
proof -
  let ?k = "length (takeWhile (\<lambda>x. x \<noteq> c) (rev s))"
  from assms have cs: "c \<in> set s" and i: "i = length s - 1 - ?k"
    by (auto simp: rfind_def split: if_splits)
  have "takeWhile (\<lambda>x. x \<noteq> c) (rev s) \<noteq> rev s"
    using cs by (auto simp: takeWhile_eq_all_conv)
  then have "?k \<noteq> length (rev s)"
    by (metis takeWhile_eq_take take_all order_refl)
  then have k: "?k < length (rev s)"
    using length_takeWhile_le [of "\<lambda>x. x \<noteq> c" "rev s"] by linarith
  have "rev s ! ?k = c"
    using k nth_length_takeWhile [of "\<lambda>x. x \<noteq> c" "rev s"] by simp
  moreover have "rev s ! ?k = s ! (length s - Suc ?k)"
    using k by (simp add: rev_nth)
  ultimately show ?thesis using k i by simp
qed

lemma path_suffix_shape:
  "path_suffix p = [] \<or> (\<exists>i. i < length (path_name p) \<and> path_suffix p = drop i (path_name p) \<and> hd (path_suffix p) = CHR ''.'')"
  by (auto simp: path_suffix_def Let_def hd_drop_conv_nth dest!: rfind_Some split: option.splits)

lemma with_suffix_tmp:
  "with_suffix p (path_suffix p @ ''.tmp'') =
     (if path_name p = [] \<or> CHR ''/'' \<in> set (path_suffix p) then None
      else Some (butlast p @ [path_name p @ ''.tmp'']))"
proof -
  from path_suffix_shape [of p] show ?thesis
  proof
    assume "path_suffix p = []"
    then show ?thesis by (simp add: with_suffix_def starts_with_def)
  next
    assume "\<exists>i. i < length (path_name p) \<and> path_suffix p = drop i (path_name p) \<and> hd (path_suffix p) = CHR ''.''"
    then obtain i where i: "i < length (path_name p)" "path_suffix p = drop i (path_name p)"
      "hd (path_suffix p) = CHR ''.''" by blast
    then have ne: "path_suffix p \<noteq> []" by simp
    have sw: "starts_with (path_suffix p @ ''.tmp'') ''.''"
      using ne i(3) by (cases "path_suffix p") (simp_all add: starts_with_def)
    have "take (length (path_name p) - length (path_suffix p)) (path_name p) @ path_suffix p = path_name p"
      using i by simp
    then show ?thesis
      using ne sw by (auto simp: with_suffix_def Let_def)
  qed
qed

lemma with_suffix_plain:
  "plain_name f \<Longrightarrow>
     with_suffix (joinpath d f) (path_suffix (joinpath d f) @ ''.tmp'') = Some (temp_path d f)"
proof -
  assume pl: "plain_name f"
  have "set (path_suffix (joinpath d f)) \<subseteq> set f"
    using path_suffix_shape [of "joinpath d f"] by (auto dest: in_set_dropD)
  with pl show ?thesis
    by (auto simp: with_suffix_tmp plain_name_def temp_path_def) (simp add: joinpath_def)
qed


lemma extract_archive_tmp:
  assumes "f \<noteq> []" and "\<not> contains ''.tar.'' (f @ ''.tmp'')"
  shows "extract_archive w (temp_path d f) extract_dir = (False, w)"
  using assms by (simp add: extract_archive_def temp_path_def path_suffix_tmp)

text \<open>
  Claim C2: for an entry marked for extraction the runner calls \<open>extract_archive\<close> on
  the temporary path, whose name is the final file name followed by \<open>.tmp\<close>. When that
  name does not contain \<open>.tar.\<close>, \<open>extract_archive\<close> takes its last branch: it returns
  \<open>False\<close> and unpacks nothing, so an entry that was downloaded and verified ends as a
  failed extraction.
\<close>

theorem tmp_archive_unknown_format:
  assumes "plain_name filename"
      and "\<not> contains ''.tar.'' (filename @ ''.tmp'')"
  shows "with_suffix (joinpath model_dir filename)
             (path_suffix (joinpath model_dir filename) @ ''.tmp'')
           = Some (temp_path model_dir filename)
       \<and> path_name (temp_path model_dir filename) = filename @ ''.tmp''
       \<and> extract_archive w (temp_path model_dir filename) extract_dir = (False, w)
       \<and> (extract_flag info
            \<and> \<not> verify_file (now s) (joinpath model_dir filename) (size_gb info)
            \<and> download_file (now s) (url info) (temp_path model_dir filename) 3 = Some (True, w1)
            \<and> verify_file w1 (temp_path model_dir filename) (size_gb info)
          \<longrightarrow> process_file model_dir s (filename, info)
                = Some (failed s w1 filename (required info) FailedExtract))"
proof -
  have ne: "filename \<noteq> []" using assms(1) by (simp add: plain_name_def)
  have a: "with_suffix (joinpath model_dir filename)
             (path_suffix (joinpath model_dir filename) @ ''.tmp'')
           = Some (temp_path model_dir filename)"
    using assms(1) by (rule with_suffix_plain)
  have b: "path_name (temp_path model_dir filename) = filename @ ''.tmp''"
    by (simp add: temp_path_def)
  have c: "extract_archive w' (temp_path model_dir filename) dir' = (False, w')" for w' dir'
    using ne assms(2) by (rule extract_archive_tmp)
  show ?thesis
    by (simp add: a b c process_file_def)
qed

theorem tmp_archive_unknown_format_witness:
  "plain_name ''params_model_1.npz''
   \<and> \<not> contains ''.tar.'' (''params_model_1.npz'' @ ''.tmp'')
   \<and> extract_flag alphafold_info
   \<and> \<not> verify_file (now (start serving_world)) (joinpath alphafold_dir ''params_model_1.npz'')
         (size_gb alphafold_info)
   \<and> download_file (now (start serving_world)) (url alphafold_info)
         (temp_path alphafold_dir ''params_model_1.npz'') 3
       = Some (True, write_file (serving_world\<lparr>requests := 1\<rparr>)
                  (temp_path alphafold_dir ''params_model_1.npz'') alphafold_archive)
   \<and> verify_file (write_file (serving_world\<lparr>requests := 1\<rparr>)
                  (temp_path alphafold_dir ''params_model_1.npz'') alphafold_archive)
         (temp_path alphafold_dir ''params_model_1.npz'') (size_gb alphafold_info)
   \<and> extract_archive serving_world (temp_path alphafold_dir ''params_model_1.npz'') alphafold_dir
       = (False, serving_world)
   \<and> process_file alphafold_dir (start serving_world) (''params_model_1.npz'', alphafold_info)
       = Some (failed (start serving_world)
                 (write_file (serving_world\<lparr>requests := 1\<rparr>)
                    (temp_path alphafold_dir ''params_model_1.npz'') alphafold_archive)
                 ''params_model_1.npz'' (required alphafold_info) FailedExtract)"
proof -
  have h1: "plain_name ''params_model_1.npz''"
    by (simp add: plain_name_def)
  have h2: "\<not> contains ''.tar.'' (''params_model_1.npz'' @ ''.tmp'')"
    by (simp add: starts_with_def)
  have h3: "extract_flag alphafold_info"
    by (simp add: alphafold_info_def)
  have h4: "\<not> verify_file (now (start serving_world))
        (joinpath alphafold_dir ''params_model_1.npz'') (size_gb alphafold_info)"
    by (simp add: verify_file_def exists_def start_def serving_world_def quiet_world_def)
  have h5: "download_file (now (start serving_world)) (url alphafold_info)
         (temp_path alphafold_dir ''params_model_1.npz'') 3
       = Some (True, write_file (serving_world\<lparr>requests := 1\<rparr>)
                  (temp_path alphafold_dir ''params_model_1.npz'') alphafold_archive)"
    by (simp add: download_file_def download_loop.simps start_def serving_world_def
        quiet_world_def write_file_def st_size_def alphafold_archive_def)
  have h6: "verify_file (write_file (serving_world\<lparr>requests := 1\<rparr>)
                  (temp_path alphafold_dir ''params_model_1.npz'') alphafold_archive)
         (temp_path alphafold_dir ''params_model_1.npz'') (size_gb alphafold_info)"
    by (simp add: verify_file_Some write_file_def alphafold_archive_def alphafold_info_def
        val_div_gb val_Dbl tolerance_def)
  from tmp_archive_unknown_format [OF h1 h2, of alphafold_dir serving_world alphafold_dir
      alphafold_info "start serving_world"
      "write_file (serving_world\<lparr>requests := 1\<rparr>)
         (temp_path alphafold_dir ''params_model_1.npz'') alphafold_archive"]
  show ?thesis
    using h1 h2 h3 h4 h5 h6 by simp
qed

subsection \<open>download_file\<close>

lemma files_unlink [simp]: "files (unlink w p) = (files w)(p := None)"
  by (simp add: unlink_def)

lemma files_write_file [simp]: "files (write_file w p f) = (files w)(p \<mapsto> f)"
  by (simp add: write_file_def)

lemma files_rename [simp]:
  "files (rename w src dst) = ((files w)(dst := files w src))(src := None)"
  by (simp add: rename_def)

lemma other_unlink [simp]:
  "net (unlink w p) = net w" "statvfs (unlink w p) = statvfs w"
  "requests (unlink w p) = requests w" "suspicious (unlink w p) = suspicious w"
  "unpacking (unlink w p) = unpacking w"
  by (simp_all add: unlink_def)

lemma other_write_file [simp]:
  "net (write_file w p f) = net w" "statvfs (write_file w p f) = statvfs w"
  "requests (write_file w p f) = requests w" "suspicious (write_file w p f) = suspicious w"
  "unpacking (write_file w p f) = unpacking w"
  by (simp_all add: write_file_def)

lemma other_rename [simp]:
  "net (rename w p q) = net w" "statvfs (rename w p q) = statvfs w"
  "requests (rename w p q) = requests w" "suspicious (rename w p q) = suspicious w"
  "unpacking (rename w p q) = unpacking w"
  by (simp_all add: rename_def)

lemma unlink_if: "(if exists w p then unlink w p else w) = unlink w p"
  by (simp add: exists_def unlink_def fun_upd_idem)

lemma unlink_write_file: "unlink (write_file w p f) p = unlink w p"
  by (simp add: unlink_def write_file_def)

lemma st_size_write_file: "st_size (write_file w p f) p = fsize f"
  by (simp add: st_size_def)

lemma download_loop_done:
  "\<not> attempt < max_retries \<Longrightarrow> download_loop w u filepath max_retries attempt = Some (False, w)"
  by (subst download_loop.simps) simp

lemma download_loop_unfold:
  assumes "attempt < max_retries"
  shows "download_loop w u filepath max_retries attempt =
     (case net w (requests w) u of
        TransportError \<Rightarrow>
          download_loop (unlink (w\<lparr>requests := requests w + 1\<rparr>) filepath) u filepath
            max_retries (attempt + 1)
      | StreamError n \<Rightarrow>
          download_loop (unlink (w\<lparr>requests := requests w + 1\<rparr>) filepath) u filepath
            max_retries (attempt + 1)
      | Complete f \<Rightarrow>
          if 0 < fsize f
          then Some (True, write_file (w\<lparr>requests := requests w + 1\<rparr>) filepath f)
          else download_loop (write_file (w\<lparr>requests := requests w + 1\<rparr>) filepath f) u
                 filepath max_retries (attempt + 1)
      | Uncaught \<Rightarrow> None)"
proof -
  have tail: "(if attempt < max_retries - 1
               then download_loop w' u filepath max_retries (attempt + 1)
               else Some (False, w'))
              = download_loop w' u filepath max_retries (attempt + 1)" for w'
    by (simp add: download_loop_done)
  show ?thesis
    apply (subst download_loop.simps)
    apply (simp only: assms if_True Let_def unlink_if unlink_write_file st_size_write_file tail)
    done
qed

lemma download_loop_frame:
  "download_loop w u filepath max_retries attempt = Some (ok, w') \<Longrightarrow> p \<noteq> filepath
     \<Longrightarrow> files w' p = files w p"
proof (induction "max_retries - attempt" arbitrary: w attempt)
  case 0
  then show ?case by (simp add: download_loop_done)
next
  case (Suc k)
  then have lt: "attempt < max_retries" and k: "k = max_retries - (attempt + 1)" by simp_all
  show ?case
    using Suc.prems Suc.hyps(1) [OF k]
    by (auto simp: download_loop_unfold [OF lt] split: response.splits if_splits)
qed

lemma download_loop_other:
  "download_loop w u filepath max_retries attempt = Some (ok, w')
     \<Longrightarrow> net w' = net w \<and> statvfs w' = statvfs w \<and> suspicious w' = suspicious w
         \<and> unpacking w' = unpacking w"
proof (induction "max_retries - attempt" arbitrary: w attempt)
  case 0
  then show ?case by (simp add: download_loop_done)
next
  case (Suc k)
  then have lt: "attempt < max_retries" and k: "k = max_retries - (attempt + 1)" by simp_all
  show ?case
    using Suc.prems Suc.hyps(1) [OF k]
    by (auto simp: download_loop_unfold [OF lt] split: response.splits if_splits)
qed

lemma download_loop_True:
  "download_loop w u filepath max_retries attempt = Some (True, w')
     \<Longrightarrow> exists w' filepath \<and> 0 < st_size w' filepath"
proof (induction "max_retries - attempt" arbitrary: w attempt)
  case 0
  then show ?case by (simp add: download_loop_done)
next
  case (Suc k)
  then have lt: "attempt < max_retries" and k: "k = max_retries - (attempt + 1)" by simp_all
  show ?case
    using Suc.prems Suc.hyps(1) [OF k]
    by (auto simp: download_loop_unfold [OF lt] exists_def st_size_def
        split: response.splits if_splits)
qed

text \<open>While no response is of a class the \<open>except\<close> clause misses, \<open>download_file\<close>
  returns.\<close>

lemma download_loop_total:
  assumes "\<And>t. net w t u \<noteq> Uncaught"
  shows "\<exists>ok w'. download_loop w u filepath max_retries attempt = Some (ok, w')"
  using assms
proof (induction "max_retries - attempt" arbitrary: w attempt)
  case 0
  then show ?case by (auto simp: download_loop_done)
next
  case (Suc k)
  then have lt: "attempt < max_retries" and k: "k = max_retries - (attempt + 1)" by simp_all
  have a: "\<exists>ok w'. download_loop (unlink (w\<lparr>requests := requests w + 1\<rparr>) filepath) u filepath
                       max_retries (attempt + 1) = Some (ok, w')"
    using Suc.prems by (intro Suc.hyps(1) [OF k]) simp
  have b: "\<exists>ok w'. download_loop (write_file (w\<lparr>requests := requests w + 1\<rparr>) filepath f) u
                       filepath max_retries (attempt + 1) = Some (ok, w')" for f
    using Suc.prems by (intro Suc.hyps(1) [OF k]) simp
  show ?case
    using Suc.prems [of "requests w"] a b
    by (auto simp: download_loop_unfold [OF lt] split: response.splits)
qed

lemma download_loop_refused:
  assumes "\<And>t. net w t u = TransportError \<or> (\<exists>n. net w t u = StreamError n)"
  shows "\<exists>w'. download_loop w u filepath max_retries attempt = Some (False, w')
           \<and> requests w' = requests w + (max_retries - attempt)
           \<and> (attempt < max_retries \<longrightarrow> files w' filepath = None)"
  using assms
proof (induction "max_retries - attempt" arbitrary: w attempt)
  case 0
  then show ?case by (simp add: download_loop_done)
next
  case (Suc k)
  then have lt: "attempt < max_retries" and k: "k = max_retries - (attempt + 1)" by simp_all
  let ?w = "unlink (w\<lparr>requests := requests w + 1\<rparr>) filepath"
  have step: "download_loop w u filepath max_retries attempt
                = download_loop ?w u filepath max_retries (attempt + 1)"
    using Suc.prems [of "requests w"] by (auto simp: download_loop_unfold [OF lt])
  have net: "\<And>t. net ?w t u = TransportError \<or> (\<exists>n. net ?w t u = StreamError n)"
    using Suc.prems by simp
  note IH = Suc.hyps(1) [OF k net]
  show ?case
  proof (cases "attempt + 1 < max_retries")
    case True
    with IH lt show ?thesis unfolding step by auto
  next
    case False
    then have "download_loop ?w u filepath max_retries (attempt + 1) = Some (False, ?w)"
      by (rule download_loop_done)
    with lt False show ?thesis unfolding step by simp
  qed
qed

lemma download_loop_Complete:
  assumes "net w (requests w) u = Complete f" and "0 < fsize f" and "attempt < max_retries"
  shows "download_loop w u filepath max_retries attempt
           = Some (True, write_file (w\<lparr>requests := requests w + 1\<rparr>) filepath f)"
  using assms by (simp add: download_loop_unfold)

lemma download_loop_empty:
  assumes "\<And>t. net w t u = Complete f" and "fsize f = 0" and "attempt < max_retries"
  shows "\<exists>w'. download_loop w u filepath max_retries attempt = Some (False, w')
           \<and> requests w' = requests w + (max_retries - attempt)
           \<and> files w' filepath = Some f"
  using assms(1,3)
proof (induction "max_retries - attempt" arbitrary: w attempt)
  case 0
  then show ?case by simp
next
  case (Suc k)
  then have lt: "attempt < max_retries" and k: "k = max_retries - (attempt + 1)" by simp_all
  let ?w = "write_file (w\<lparr>requests := requests w + 1\<rparr>) filepath f"
  have step: "download_loop w u filepath max_retries attempt
                = download_loop ?w u filepath max_retries (attempt + 1)"
    using Suc.prems(1) [of "requests w"] assms(2) by (simp add: download_loop_unfold [OF lt])
  have net: "\<And>t. net ?w t u = Complete f"
    using Suc.prems(1) by simp
  show ?case
  proof (cases "attempt + 1 < max_retries")
    case True
    with Suc.hyps(1) [OF k net] lt show ?thesis unfolding step by auto
  next
    case False
    then have "download_loop ?w u filepath max_retries (attempt + 1) = Some (False, ?w)"
      by (rule download_loop_done)
    with lt False show ?thesis unfolding step by simp
  qed
qed

text \<open>
  Claim C4 at a source whose every stream completes with no bytes: \<open>download_file\<close>
  makes three attempts and returns \<open>False\<close>, but the empty file of the last attempt is
  still at the destination. Only the \<open>except\<close> branch removes the destination.
\<close>

theorem download_file_empty_stream_leaves_file:
  "download_file empty_stream_world ''https://files.ipd.uw.edu/weights.pt''
     (temp_path alphafold_dir ''weights.pt'') 3
   = Some (False, write_file (empty_stream_world\<lparr>requests := 3\<rparr>)
                    (temp_path alphafold_dir ''weights.pt'') (File 0 Plain))
   \<and> files (write_file (empty_stream_world\<lparr>requests := 3\<rparr>)
              (temp_path alphafold_dir ''weights.pt'') (File 0 Plain))
        (temp_path alphafold_dir ''weights.pt'') = Some (File 0 Plain)"
  by (simp add: download_file_def download_loop.simps empty_stream_world_def quiet_world_def
      write_file_def st_size_def)

subsection \<open>extract_archive\<close>

text \<open>
  Claim C1 at an archive with the member \<open>../../escape.txt\<close>: the name is printed as
  suspicious, and \<open>extractall\<close> then unpacks every member, so the file appears two
  levels above the target directory.
\<close>

theorem extract_archive_writes_outside:
  "fst (extract_archive escape_world escape_archive alphafold_dir) = True
   \<and> suspicious (snd (extract_archive escape_world escape_archive alphafold_dir))
       = [''../../escape.txt'']
   \<and> files (snd (extract_archive escape_world escape_archive alphafold_dir))
         [''content'', ''escape.txt''] = Some (File 7 Plain)
   \<and> files escape_world [''content'', ''escape.txt''] = None
   \<and> \<not> inside alphafold_dir [''content'', ''escape.txt'']"
  by (simp add: extract_archive_def escape_world_def escape_archive_def alphafold_dir_def
      quiet_world_def write_file_def joinpath_def path_suffix_def path_name_def rfind_def
      starts_with_def os_join_def walk_def inside_def)

lemma check_members_other:
  "files (check_members w names) = files w \<and> net (check_members w names) = net w
   \<and> statvfs (check_members w names) = statvfs w
   \<and> requests (check_members w names) = requests w
   \<and> unpacking (check_members w names) = unpacking w"
  by (induction names arbitrary: w) auto

lemma tar_extractall_other:
  "net (snd (tar_extractall w ms d)) = net w \<and> statvfs (snd (tar_extractall w ms d)) = statvfs w
   \<and> requests (snd (tar_extractall w ms d)) = requests w
   \<and> unpacking (snd (tar_extractall w ms d)) = unpacking w"
  by (induction w ms d rule: tar_extractall.induct)
    (auto split: unpacked.splits option.splits)

lemma zip_extractall_other:
  "net (snd (zip_extractall w ms d)) = net w \<and> statvfs (snd (zip_extractall w ms d)) = statvfs w
   \<and> requests (snd (zip_extractall w ms d)) = requests w
   \<and> unpacking (snd (zip_extractall w ms d)) = unpacking w"
  by (induction w ms d rule: zip_extractall.induct)
    (auto split: unpacked.splits option.splits)

lemma extract_archive_other:
  "net (snd (extract_archive w p d)) = net w
   \<and> statvfs (snd (extract_archive w p d)) = statvfs w
   \<and> requests (snd (extract_archive w p d)) = requests w"
  by (simp add: extract_archive_def Let_def check_members_other tar_extractall_other
      zip_extractall_other split: option.splits file_data.splits body.splits)



lemma extract_archive_tmp_cases:
  assumes "f \<noteq> []"
  shows "extract_archive w (temp_path d f) d' =
     (if contains ''.tar.'' (f @ ''.tmp'') then
        (case files w (temp_path d f) of
           Some (File n (Tar members)) \<Rightarrow>
             tar_extractall (check_members w (map fst members)) members d'
         | _ \<Rightarrow> (False, w))
      else (False, w))"
  using assms
  by (auto simp: extract_archive_def Let_def temp_path_def path_suffix_tmp
      split: option.splits file_data.splits body.splits)



subsection \<open>The loop body\<close>

lemma with_suffix_joinpath:
  "with_suffix (joinpath d f) (path_suffix (joinpath d f) @ ''.tmp'') = Some t
     \<Longrightarrow> t = temp_path d f"
  by (simp add: with_suffix_tmp temp_path_def split: if_splits) (simp add: joinpath_def)

lemma temp_path_neq [simp]: "temp_path d f \<noteq> joinpath d f" "joinpath d f \<noteq> temp_path d f"
  by (simp_all add: temp_path_def joinpath_def)

lemma verify_file_cong:
  "files w p = files w' p \<Longrightarrow> verify_file w p e = verify_file w' p e"
  by (simp add: verify_file_def exists_def st_size_def)

lemma verify_fileD:
  "verify_file w p sz \<Longrightarrow>
     exists w p
     \<and> (\<forall>e. sz = Some e \<and> mant e \<noteq> 0
            \<longrightarrow> \<bar>val (div_gb (st_size w p)) - val e\<bar> \<le> tolerance)"
  by (cases "files w p")
    (auto simp: verify_file_None verify_file_Some exists_def st_size_def)

lemma verify_file_unchecked:
  "sz = None \<or> (\<exists>e. sz = Some e \<and> mant e = 0) \<Longrightarrow> verify_file w p sz = exists w p"
  by (cases "files w p") (auto simp: verify_file_None verify_file_Some exists_def)

lemma now_succeeded [simp]: "now (succeeded s w f oc) = w"
  "report (succeeded s w f oc) = report s @ [(f, oc)]"
  "success (succeeded s w f oc) = success s"
  "required_success (succeeded s w f oc) = required_success s"
  by (simp_all add: succeeded_def)

lemma now_failed [simp]: "now (failed s w f r oc) = w"
  "report (failed s w f r oc) = report s @ [(f, oc)]"
  "success (failed s w f r oc) = False"
  "required_success (failed s w f r oc) = (\<not> r \<and> required_success s)"
  by (auto simp: failed_def)

lemma exists_rename:
  "src \<noteq> dst \<Longrightarrow> exists (rename w src dst) dst = exists w src"
  "src \<noteq> dst \<Longrightarrow> st_size (rename w src dst) dst = st_size w src"
  "src \<noteq> dst \<Longrightarrow> verify_file (rename w src dst) dst sz = verify_file w src sz"
  by (simp_all add: exists_def st_size_def verify_file_def)

lemma process_file_cases:
  assumes "process_file d s (f, i) = Some s'"
  obtains
    (present) "verify_file (now s) (joinpath d f) (size_gb i)"
      "s' = succeeded s (now s) f AlreadyExists"
  | (moved) w1 where "\<not> verify_file (now s) (joinpath d f) (size_gb i)"
      "download_file (now s) (url i) (temp_path d f) 3 = Some (True, w1)"
      "verify_file w1 (temp_path d f) (size_gb i)" "\<not> extract_flag i"
      "s' = succeeded s (rename w1 (temp_path d f) (joinpath d f)) f Downloaded"
  | (unpacked) w1 w2 where "\<not> verify_file (now s) (joinpath d f) (size_gb i)"
      "download_file (now s) (url i) (temp_path d f) 3 = Some (True, w1)"
      "verify_file w1 (temp_path d f) (size_gb i)" "extract_flag i"
      "extract_archive w1 (temp_path d f) d = (True, w2)"
      "s' = succeeded s (unlink w2 (temp_path d f)) f Extracted"
  | (not_unpacked) w1 w2 where "\<not> verify_file (now s) (joinpath d f) (size_gb i)"
      "download_file (now s) (url i) (temp_path d f) 3 = Some (True, w1)"
      "verify_file w1 (temp_path d f) (size_gb i)" "extract_flag i"
      "extract_archive w1 (temp_path d f) d = (False, w2)"
      "s' = failed s w2 f (required i) FailedExtract"
  | (mismatch) w1 where "\<not> verify_file (now s) (joinpath d f) (size_gb i)"
      "download_file (now s) (url i) (temp_path d f) 3 = Some (True, w1)"
      "\<not> verify_file w1 (temp_path d f) (size_gb i)"
      "s' = failed s w1 f (required i) VerificationFailed"
  | (no_download) w1 where "\<not> verify_file (now s) (joinpath d f) (size_gb i)"
      "download_file (now s) (url i) (temp_path d f) 3 = Some (False, w1)"
      "s' = failed s w1 f (required i) FailedDownload"
proof (cases "verify_file (now s) (joinpath d f) (size_gb i)")
  case True
  with assms present show ?thesis by (simp add: process_file_def Let_def)
next
  case False
  with assms obtain t where t: "with_suffix (joinpath d f) (path_suffix (joinpath d f) @ ''.tmp'') = Some t"
    by (auto simp: process_file_def Let_def split: option.splits)
  then have tt: "t = temp_path d f" by (rule with_suffix_joinpath)
  from assms False t tt obtain ok w1 where
    dl: "download_file (now s) (url i) (temp_path d f) 3 = Some (ok, w1)"
    by (auto simp: process_file_def Let_def split: option.splits)
  obtain ex w2 where ex: "extract_archive w1 (temp_path d f) d = (ex, w2)"
    by (cases "extract_archive w1 (temp_path d f) d")
  from assms False t tt dl ex show ?thesis
    using moved unpacked not_unpacked mismatch no_download
    by (auto simp: process_file_def Let_def split: if_splits)
qed

lemma download_file_True:
  "download_file w u p n = Some (True, w1) \<Longrightarrow> exists w1 p \<and> 0 < st_size w1 p"
  unfolding download_file_def by (rule download_loop_True)

lemma download_file_frame:
  "download_file w u p n = Some (ok, w1) \<Longrightarrow> q \<noteq> p \<Longrightarrow> files w1 q = files w q"
  unfolding download_file_def by (rule download_loop_frame)

lemma download_file_other:
  "download_file w u p n = Some (ok, w1) \<Longrightarrow> net w1 = net w \<and> statvfs w1 = statvfs w"
  unfolding download_file_def by (drule download_loop_other) simp

lemma download_file_total:
  "(\<And>t. net w t u \<noteq> Uncaught) \<Longrightarrow> \<exists>ok w1. download_file w u p n = Some (ok, w1)"
  unfolding download_file_def by (rule download_loop_total)

lemma process_file_total:
  assumes "plain_name f" and "\<And>t. net (now s) t (url i) \<noteq> Uncaught"
  shows "\<exists>s'. process_file d s (f, i) = Some s'"
proof -
  from download_file_total [of "now s" "url i" "temp_path d f" 3] assms(2)
  obtain ok w1 where "download_file (now s) (url i) (temp_path d f) 3 = Some (ok, w1)"
    by blast
  then show ?thesis
    by (simp add: process_file_def Let_def with_suffix_plain [OF assms(1)] split: prod.splits)
qed

text \<open>
  Claim C5, as the code has it: an entry is reported as already existing exactly when
  \<open>verify_file\<close> passes for its final path, which with no declared size or a declared
  size of zero means that the file exists, whatever its size. An entry reported as
  already existing or as downloaded has its final file on disk, and within the tolerance
  of a declared size other than zero; a file reported as downloaded is not empty. An
  entry reported as extracted had its archive downloaded, not empty and verified at the
  temporary path, and the archive is deleted after unpacking; nothing is said of its
  final path.
\<close>

theorem reported_outcomes_are_verified:
  assumes "process_file d s (f, i) = Some s'"
      and "report s' = report s @ [(f, oc)]"
  shows "((oc = AlreadyExists) = verify_file (now s) (joinpath d f) (size_gb i))
       \<and> (size_gb i = None \<or> (\<exists>e. size_gb i = Some e \<and> mant e = 0)
            \<longrightarrow> (oc = AlreadyExists) = exists (now s) (joinpath d f))
       \<and> (oc = AlreadyExists \<or> oc = Downloaded
            \<longrightarrow> exists (now s') (joinpath d f)
                \<and> (\<forall>e. size_gb i = Some e \<and> mant e \<noteq> 0
                       \<longrightarrow> \<bar>val (div_gb (st_size (now s') (joinpath d f))) - val e\<bar>
                           \<le> tolerance))
       \<and> (oc = Downloaded \<longrightarrow> 0 < st_size (now s') (joinpath d f))
       \<and> (oc = Extracted
            \<longrightarrow> (\<exists>w1 w2. download_file (now s) (url i) (temp_path d f) 3 = Some (True, w1)
                   \<and> verify_file w1 (temp_path d f) (size_gb i)
                   \<and> 0 < st_size w1 (temp_path d f)
                   \<and> extract_archive w1 (temp_path d f) d = (True, w2)
                   \<and> now s' = unlink w2 (temp_path d f)))"
proof -
  have loose: "verify_file (now s) (joinpath d f) (size_gb i) = exists (now s) (joinpath d f)"
    if "size_gb i = None \<or> (\<exists>e. size_gb i = Some e \<and> mant e = 0)"
    using that by (rule verify_file_unchecked)
  from assms(1) show ?thesis
  proof (cases rule: process_file_cases)
    case present
    with assms(2) have oc: "oc = AlreadyExists" by simp
    from present verify_fileD [OF present(1)] loose show ?thesis
      unfolding oc by simp
  next
    case (moved w1)
    with assms(2) have oc: "oc = Downloaded" by simp
    have "verify_file (now s') (joinpath d f) (size_gb i)"
      using moved by (simp add: exists_rename)
    from verify_fileD [OF this] download_file_True [OF moved(2)] moved loose
    show ?thesis
      unfolding oc by (simp add: exists_rename)
  next
    case (unpacked w1 w2)
    with assms(2) have oc: "oc = Extracted" by simp
    from unpacked download_file_True [OF unpacked(2)] loose show ?thesis
      unfolding oc by simp
  next
    case (not_unpacked w1 w2)
    with assms(2) have oc: "oc = FailedExtract" by simp
    from not_unpacked loose show ?thesis
      unfolding oc by simp
  next
    case (mismatch w1)
    with assms(2) have oc: "oc = VerificationFailed" by simp
    from mismatch loose show ?thesis
      unfolding oc by simp
  next
    case (no_download w1)
    with assms(2) have oc: "oc = FailedDownload" by simp
    from no_download loose show ?thesis
      unfolding oc by simp
  qed
qed

lemma download_model_category_run:
  assumes "map_of (models d) category = Some cfg"
      and "check_disk_space w (fadd (total_size_of (cfiles cfg)) (of_nat_f 1))"
  shows "download_model_category d w category =
     (case run_files (dir cfg) (start w) (cfiles cfg) of
        None \<Rightarrow> None
      | Some s \<Rightarrow> Some (required_success s, s))"
  using assms by (simp add: download_model_category_def Let_def)

lemma download_model_category_stop:
  assumes "map_of (models d) category = Some cfg"
      and "\<not> check_disk_space w (fadd (total_size_of (cfiles cfg)) (of_nat_f 1))"
  shows "download_model_category d w category = Some (False, start w)"
  using assms by (simp add: download_model_category_def Let_def)

lemma mpnn_download:
  "download_file mpnn_world (url mpnn_info) (temp_path mpnn_dir ''proteinmpnn_v_48_020.pt'') 3
     = Some (True, write_file (mpnn_world\<lparr>requests := 1\<rparr>)
                (temp_path mpnn_dir ''proteinmpnn_v_48_020.pt'') mpnn_weights)"
  by (simp add: download_file_def download_loop_Complete mpnn_world_def mpnn_weights_def
      quiet_world_def)

lemma half_gb_verifies:
  "files w p = Some mpnn_weights \<Longrightarrow> verify_file w p (size_gb mpnn_info)"
  by (simp add: verify_file_Some mpnn_weights_def mpnn_info_def val_div_gb val_Dbl
      tolerance_def)

lemma mpnn_process:
  "process_file mpnn_dir (start mpnn_world) (''proteinmpnn_v_48_020.pt'', mpnn_info)
     = Some (succeeded (start mpnn_world)
         (rename (write_file (mpnn_world\<lparr>requests := 1\<rparr>)
                    (temp_path mpnn_dir ''proteinmpnn_v_48_020.pt'') mpnn_weights)
            (temp_path mpnn_dir ''proteinmpnn_v_48_020.pt'')
            (joinpath mpnn_dir ''proteinmpnn_v_48_020.pt''))
         ''proteinmpnn_v_48_020.pt'' Downloaded)"
proof -
  have pl: "plain_name ''proteinmpnn_v_48_020.pt''"
    by (simp add: plain_name_def)
  have nv: "\<not> verify_file mpnn_world (joinpath mpnn_dir ''proteinmpnn_v_48_020.pt'') (size_gb mpnn_info)"
    by (simp add: verify_file_def exists_def mpnn_world_def quiet_world_def)
  have v: "verify_file (write_file (mpnn_world\<lparr>requests := 1\<rparr>)
                (temp_path mpnn_dir ''proteinmpnn_v_48_020.pt'') mpnn_weights)
             (temp_path mpnn_dir ''proteinmpnn_v_48_020.pt'') (size_gb mpnn_info)"
    by (rule half_gb_verifies) simp
  have ne: "\<not> extract_flag mpnn_info"
    by (simp add: mpnn_info_def)
  show ?thesis
    using nv v ne
    by (simp add: process_file_def Let_def with_suffix_plain [OF pl] start_def mpnn_download)
qed

lemma tarball_download:
  "download_file serving_world (url alphafold_info) (temp_path alphafold_dir f) 3
     = Some (True, write_file (serving_world\<lparr>requests := 1\<rparr>)
                (temp_path alphafold_dir f) alphafold_archive)"
  by (simp add: download_file_def download_loop_Complete serving_world_def
      alphafold_archive_def quiet_world_def)

lemma archive_verifies:
  "files w p = Some alphafold_archive \<Longrightarrow> verify_file w p (size_gb alphafold_info)"
  by (simp add: verify_file_Some alphafold_archive_def alphafold_info_def val_div_gb val_Dbl
      tolerance_def)

lemma tarball_extract:
  "extract_archive (write_file (serving_world\<lparr>requests := 1\<rparr>)
                (temp_path alphafold_dir ''alphafold_params.tar'') alphafold_archive)
       (temp_path alphafold_dir ''alphafold_params.tar'') alphafold_dir
     = (True, write_file
          (write_file (serving_world\<lparr>requests := 1\<rparr>)
             (temp_path alphafold_dir ''alphafold_params.tar'') alphafold_archive)
          (joinpath alphafold_dir ''params_model_1.npz'') (File 1024 Plain))"
  by (simp add: extract_archive_tmp_cases alphafold_archive_def starts_with_def
      serving_world_def quiet_world_def write_file_def os_join_def walk_def joinpath_def)

lemma tarball_process:
  "process_file alphafold_dir (start serving_world) (''alphafold_params.tar'', alphafold_info)
     = Some (succeeded (start serving_world) tarball_unpacked ''alphafold_params.tar''
               Extracted)"
proof -
  have pl: "plain_name ''alphafold_params.tar''"
    by (simp add: plain_name_def)
  have nv: "\<not> verify_file serving_world (joinpath alphafold_dir ''alphafold_params.tar'')
               (size_gb alphafold_info)"
    by (simp add: verify_file_def exists_def serving_world_def quiet_world_def)
  have v: "verify_file (write_file (serving_world\<lparr>requests := 1\<rparr>)
                (temp_path alphafold_dir ''alphafold_params.tar'') alphafold_archive)
             (temp_path alphafold_dir ''alphafold_params.tar'') (size_gb alphafold_info)"
    by (rule archive_verifies) simp
  have e: "extract_flag alphafold_info"
    by (simp add: alphafold_info_def)
  show ?thesis
    using nv v e
    by (simp add: process_file_def Let_def with_suffix_plain [OF pl] start_def
        tarball_download tarball_extract tarball_unpacked_def del: One_nat_def)
qed

lemma tarball_final_absent:
  "\<not> exists tarball_unpacked (joinpath alphafold_dir ''alphafold_params.tar'')"
  by (simp add: tarball_unpacked_def exists_def serving_world_def quiet_world_def
      joinpath_def temp_path_def)

theorem reported_outcomes_are_verified_witness:
  "(process_file mpnn_dir (start mpnn_world) (''proteinmpnn_v_48_020.pt'', mpnn_info)
      = Some (succeeded (start mpnn_world)
          (rename (write_file (mpnn_world\<lparr>requests := 1\<rparr>)
                     (temp_path mpnn_dir ''proteinmpnn_v_48_020.pt'') mpnn_weights)
             (temp_path mpnn_dir ''proteinmpnn_v_48_020.pt'')
             (joinpath mpnn_dir ''proteinmpnn_v_48_020.pt''))
          ''proteinmpnn_v_48_020.pt'' Downloaded)
    \<and> size_gb mpnn_info = Some (Dbl 1 1)
    \<and> \<not> verify_file mpnn_world (joinpath mpnn_dir ''proteinmpnn_v_48_020.pt'')
          (size_gb mpnn_info)
    \<and> exists (rename (write_file (mpnn_world\<lparr>requests := 1\<rparr>)
                     (temp_path mpnn_dir ''proteinmpnn_v_48_020.pt'') mpnn_weights)
             (temp_path mpnn_dir ''proteinmpnn_v_48_020.pt'')
             (joinpath mpnn_dir ''proteinmpnn_v_48_020.pt''))
          (joinpath mpnn_dir ''proteinmpnn_v_48_020.pt'')
    \<and> 0 < st_size (rename (write_file (mpnn_world\<lparr>requests := 1\<rparr>)
                     (temp_path mpnn_dir ''proteinmpnn_v_48_020.pt'') mpnn_weights)
             (temp_path mpnn_dir ''proteinmpnn_v_48_020.pt'')
             (joinpath mpnn_dir ''proteinmpnn_v_48_020.pt''))
          (joinpath mpnn_dir ''proteinmpnn_v_48_020.pt'')
    \<and> \<bar>val (div_gb (st_size (rename (write_file (mpnn_world\<lparr>requests := 1\<rparr>)
                     (temp_path mpnn_dir ''proteinmpnn_v_48_020.pt'') mpnn_weights)
             (temp_path mpnn_dir ''proteinmpnn_v_48_020.pt'')
             (joinpath mpnn_dir ''proteinmpnn_v_48_020.pt''))
          (joinpath mpnn_dir ''proteinmpnn_v_48_020.pt''))) - val (Dbl 1 1)\<bar> \<le> tolerance)
   \<and> (process_file alphafold_dir (start serving_world)
         (''alphafold_params.tar'', alphafold_info)
      = Some (succeeded (start serving_world) tarball_unpacked ''alphafold_params.tar''
                Extracted)
    \<and> (\<exists>w1 w2. download_file serving_world (url alphafold_info)
                   (temp_path alphafold_dir ''alphafold_params.tar'') 3 = Some (True, w1)
          \<and> verify_file w1 (temp_path alphafold_dir ''alphafold_params.tar'')
              (size_gb alphafold_info)
          \<and> 0 < st_size w1 (temp_path alphafold_dir ''alphafold_params.tar'')
          \<and> extract_archive w1 (temp_path alphafold_dir ''alphafold_params.tar'')
              alphafold_dir = (True, w2)
          \<and> tarball_unpacked = unlink w2 (temp_path alphafold_dir ''alphafold_params.tar'')))"
proof -
  have sz: "size_gb mpnn_info = Some (Dbl 1 1)"
    by (simp add: mpnn_info_def)
  have a: "report (succeeded (start mpnn_world) w ''proteinmpnn_v_48_020.pt'' Downloaded)
      = report (start mpnn_world) @ [(''proteinmpnn_v_48_020.pt'', Downloaded)]" for w
    by simp
  have b: "report (succeeded (start serving_world) tarball_unpacked ''alphafold_params.tar''
               Extracted)
      = report (start serving_world) @ [(''alphafold_params.tar'', Extracted)]"
    by simp
  have n: "now (start w) = w" for w
    by (simp add: start_def)
  from reported_outcomes_are_verified [OF mpnn_process a]
       reported_outcomes_are_verified [OF tarball_process b]
       sz mpnn_process tarball_process
  show ?thesis
    by (simp add: n)
qed

text \<open>
  The claim as stated fails twice. On the skip path, with no declared size, an empty file
  at the final path is reported as already existing and nothing is downloaded. On the
  extraction path, the entry succeeds and the category with it, while nothing is at the
  entry's final path: the archive was unpacked beside it and deleted.
\<close>

theorem reported_outcomes_counterexample:
  "(download_model_category unsized_downloader empty_file_world ''proteinmpnn''
      = Some (True, succeeded (start empty_file_world) empty_file_world
                      ''proteinmpnn_v_48_020.pt'' AlreadyExists)
    \<and> size_gb unsized_info = None
    \<and> st_size empty_file_world (joinpath mpnn_dir ''proteinmpnn_v_48_020.pt'') = 0)
   \<and> (download_model_category tarball_downloader serving_world ''alphafold''
        = Some (True, succeeded (start serving_world) tarball_unpacked
                        ''alphafold_params.tar'' Extracted)
      \<and> \<not> exists tarball_unpacked (joinpath alphafold_dir ''alphafold_params.tar''))"
proof -
  let ?cfg = "\<lparr>dir = mpnn_dir, cfiles = [(''proteinmpnn_v_48_020.pt'', unsized_info)]\<rparr>"
  have v: "verify_file empty_file_world (joinpath mpnn_dir ''proteinmpnn_v_48_020.pt'')
             (size_gb unsized_info)"
    by (simp add: verify_file_def exists_def empty_file_world_def unsized_info_def)
  have m1: "map_of (models unsized_downloader) ''proteinmpnn'' = Some ?cfg"
    by (simp add: unsized_downloader_def)
  have sp: "check_disk_space empty_file_world
              (fadd (total_size_of (cfiles ?cfg)) (of_nat_f 1))"
    by (simp add: check_disk_space_def empty_file_world_def quiet_world_def write_file_def
        total_size_of_def size_or_0_def unsized_info_def fadd_def of_nat_f_def round53_small
        val_div_gb val_Dbl)
  have p1: "process_file mpnn_dir (start empty_file_world)
              (''proteinmpnn_v_48_020.pt'', unsized_info)
      = Some (succeeded (start empty_file_world) empty_file_world
                ''proteinmpnn_v_48_020.pt'' AlreadyExists)"
    using v by (simp add: process_file_def Let_def start_def)
  have first: "download_model_category unsized_downloader empty_file_world ''proteinmpnn''
      = Some (True, succeeded (start empty_file_world) empty_file_world
                      ''proteinmpnn_v_48_020.pt'' AlreadyExists)"
    unfolding download_model_category_run [OF m1 sp]
    by (simp add: p1) (simp add: start_def)
  have m2: "map_of (models tarball_downloader) ''alphafold'' = Some tarball_config"
    by (simp add: tarball_downloader_def)
  have sp2: "check_disk_space serving_world
               (fadd (total_size_of (cfiles tarball_config)) (of_nat_f 1))"
    by (simp add: check_disk_space_def serving_world_def quiet_world_def tarball_config_def
        total_size_of_def size_or_0_def alphafold_info_def fadd_def of_nat_f_def
        round53_small val_div_gb val_Dbl)
  have second: "download_model_category tarball_downloader serving_world ''alphafold''
        = Some (True, succeeded (start serving_world) tarball_unpacked
                        ''alphafold_params.tar'' Extracted)"
    unfolding download_model_category_run [OF m2 sp2]
    by (simp add: tarball_config_def tarball_process) (simp add: start_def)
  have sz: "size_gb unsized_info = None
      \<and> st_size empty_file_world (joinpath mpnn_dir ''proteinmpnn_v_48_020.pt'') = 0"
    by (simp add: unsized_info_def st_size_def empty_file_world_def)
  from first second sz tarball_final_absent show ?thesis
    by simp
qed





subsection \<open>download_model_category\<close>

lemma download_file_refused:
  assumes "\<And>t. net w t u = TransportError \<or> (\<exists>n. net w t u = StreamError n)"
  shows "\<exists>w'. download_file w u p 3 = Some (False, w') \<and> requests w' = requests w + 3
           \<and> files w' p = None"
  using download_loop_refused [of w u p 3 0, OF assms] by (auto simp: download_file_def)

lemma process_file_step:
  assumes "process_file d s e = Some s'"
  shows "entry_after (now s) d e = Some (now s')
       \<and> required_success s' = (required_success s \<and> \<not> (required (snd e) \<and> entry_fails (now s) d e))
       \<and> (\<exists>oc. report s' = report s @ [(fst e, oc)])"
proof -
  obtain f i where e: "e = (f, i)" by (cases e)
  from assms [unfolded e] show ?thesis
    unfolding e
    by (cases rule: process_file_cases)
      (auto simp: entry_after_def entry_fails_def)
qed

lemma process_file_net:
  assumes "process_file d s (f, i) = Some s'"
  shows "net (now s') = net (now s)"
  using assms
proof (cases rule: process_file_cases)
  case (unpacked w1 w2)
  with download_file_other [OF unpacked(2)] extract_archive_other [of w1 "temp_path d f" d]
  show ?thesis by simp
next
  case (not_unpacked w1 w2)
  with download_file_other [OF not_unpacked(2)] extract_archive_other [of w1 "temp_path d f" d]
  show ?thesis by simp
qed (auto dest: download_file_other)

lemma ex_less_Suc: "(\<exists>k < Suc n. P k) = (P 0 \<or> (\<exists>k < n. P (Suc k)))"
  by (metis less_Suc_eq_0_disj)

lemma run_files_entries:
  "run_files d s es = Some s' \<Longrightarrow>
     after_entries d (now s) es = Some (now s')
     \<and> required_success s'
         = (required_success s
            \<and> \<not> (\<exists>k < length es. required (snd (es ! k))
                    \<and> (\<exists>wk. after_entries d (now s) (take k es) = Some wk
                          \<and> entry_fails wk d (es ! k))))
     \<and> map fst (report s') = map fst (report s) @ map fst es"
proof (induction es arbitrary: s)
  case Nil
  then show ?case by simp
next
  case (Cons e es)
  from Cons.prems obtain s1 where s1: "process_file d s e = Some s1"
    and r: "run_files d s1 es = Some s'"
    by (auto split: option.splits)
  note st = process_file_step [OF s1]
  note ih = Cons.IH [OF r]
  have a: "after_entries d (now s) (e # es) = Some (now s')"
    using st ih by simp
  have b: "map fst (report s') = map fst (report s) @ map fst (e # es)"
    using st ih by auto
  have c: "(\<exists>k < length (e # es). required (snd ((e # es) ! k))
              \<and> (\<exists>wk. after_entries d (now s) (take k (e # es)) = Some wk
                    \<and> entry_fails wk d ((e # es) ! k)))
         = ((required (snd e) \<and> entry_fails (now s) d e)
            \<or> (\<exists>k < length es. required (snd (es ! k))
                  \<and> (\<exists>wk. after_entries d (now s1) (take k es) = Some wk
                        \<and> entry_fails wk d (es ! k))))"
    using st by (simp add: ex_less_Suc)
  have "required_success s'
      = (required_success s
         \<and> \<not> (\<exists>k < length (e # es). required (snd ((e # es) ! k))
                 \<and> (\<exists>wk. after_entries d (now s) (take k (e # es)) = Some wk
                       \<and> entry_fails wk d ((e # es) ! k))))"
    unfolding c using st ih by blast
  with a b show ?case by blast
qed

lemma run_files_total:
  assumes "plain_names es"
      and "\<forall>entry \<in> set es. \<forall>t. net (now s) t (url (snd entry)) \<noteq> Uncaught"
  shows "\<exists>s'. run_files d s es = Some s'"
  using assms
proof (induction es arbitrary: s)
  case Nil
  then show ?case by simp
next
  case (Cons e es)
  obtain f i where e: "e = (f, i)" by (cases e)
  from Cons.prems e have pl: "plain_name f" and pls: "plain_names es"
    by (simp_all add: plain_names_def)
  from Cons.prems(2) e have "\<And>t. net (now s) t (url i) \<noteq> Uncaught"
    by simp
  from process_file_total [OF pl this] obtain s1 where s1: "process_file d s (f, i) = Some s1"
    by blast
  from Cons.prems(2) process_file_net [OF s1]
  have "\<forall>entry \<in> set es. \<forall>t. net (now s1) t (url (snd entry)) \<noteq> Uncaught"
    by simp
  from Cons.IH [OF pls this] s1 e show ?case
    by simp
qed

text \<open>
  Claim C7, as the code has it. When the space check of the category fails,
  \<open>download_model_category\<close> returns \<open>False\<close> and handles no entry. When it passes and
  no request of the category raises an exception that the fetcher does not catch, the
  entries are handled in order, and \<open>download_model_category\<close> returns \<open>False\<close> exactly
  when some entry with \<open>required\<close> set fails terminally in the world the entries before
  it have left.
\<close>

theorem required_satisfied_iff_no_required_failure:
  assumes "map_of (models d) category = Some cfg"
      and "plain_names (cfiles cfg)"
      and "\<forall>entry \<in> set (cfiles cfg). \<forall>t. net w t (url (snd entry)) \<noteq> Uncaught"
  shows "(\<not> check_disk_space w (fadd (total_size_of (cfiles cfg)) (of_nat_f 1))
            \<longrightarrow> download_model_category d w category = Some (False, start w))
       \<and> (check_disk_space w (fadd (total_size_of (cfiles cfg)) (of_nat_f 1))
            \<longrightarrow> (\<exists>s. download_model_category d w category
                       = Some (\<not> (\<exists>k < length (cfiles cfg).
                                     required (snd (cfiles cfg ! k))
                                     \<and> (\<exists>wk. after_entries (dir cfg) w (take k (cfiles cfg))
                                                = Some wk
                                           \<and> entry_fails wk (dir cfg) (cfiles cfg ! k))), s)
                     \<and> after_entries (dir cfg) w (cfiles cfg) = Some (now s)
                     \<and> map fst (report s) = map fst (cfiles cfg)))"
proof (intro conjI impI)
  assume "\<not> check_disk_space w (fadd (total_size_of (cfiles cfg)) (of_nat_f 1))"
  with assms(1) show "download_model_category d w category = Some (False, start w)"
    by (rule download_model_category_stop)
next
  assume sp: "check_disk_space w (fadd (total_size_of (cfiles cfg)) (of_nat_f 1))"
  have n: "now (start w) = w" "required_success (start w)" "report (start w) = []"
    by (simp_all add: start_def)
  from assms(3) have "\<forall>entry \<in> set (cfiles cfg). \<forall>t. net (now (start w)) t (url (snd entry)) \<noteq> Uncaught"
    by (simp add: n)
  from run_files_total [OF assms(2) this] obtain s where
    s: "run_files (dir cfg) (start w) (cfiles cfg) = Some s"
    by blast
  from run_files_entries [OF s] s
  show "\<exists>s. download_model_category d w category
               = Some (\<not> (\<exists>k < length (cfiles cfg).
                             required (snd (cfiles cfg ! k))
                             \<and> (\<exists>wk. after_entries (dir cfg) w (take k (cfiles cfg))
                                        = Some wk
                                   \<and> entry_fails wk (dir cfg) (cfiles cfg ! k))), s)
             \<and> after_entries (dir cfg) w (cfiles cfg) = Some (now s)
             \<and> map fst (report s) = map fst (cfiles cfg)"
    unfolding download_model_category_run [OF assms(1) sp]
    by (simp add: n)
qed

lemma quiet_entry_fails:
  "entry_fails quiet_world d (f, i)"
proof -
  from download_file_refused [of quiet_world "url i" "temp_path d f"]
  obtain w' where "download_file quiet_world (url i) (temp_path d f) 3 = Some (False, w')"
    by (auto simp: quiet_world_def)
  then show ?thesis
    by (simp add: entry_fails_def verify_file_None quiet_world_def)
qed

lemma quiet_preflight:
  "check_disk_space quiet_world (fadd (total_size_of [(f, mpnn_info\<lparr>required := r\<rparr>)]) (of_nat_f 1))"
  by (simp add: check_disk_space_def quiet_world_def total_size_of_def size_or_0_def
      mpnn_info_def fadd_def of_nat_f_def round53_small val_div_gb val_Dbl)

theorem required_satisfied_iff_no_required_failure_witness:
  "(required mpnn_info
    \<and> entry_fails quiet_world mpnn_dir (''proteinmpnn_v_48_020.pt'', mpnn_info)
    \<and> (\<exists>s. download_model_category mpnn_downloader quiet_world ''proteinmpnn''
              = Some (False, s)
           \<and> map fst (report s) = [''proteinmpnn_v_48_020.pt'']))
   \<and> (\<not> required optional_info
    \<and> entry_fails quiet_world mpnn_dir (''proteinmpnn_v_48_020.pt'', optional_info)
    \<and> (\<exists>s. download_model_category optional_downloader quiet_world ''proteinmpnn''
              = Some (True, s)
           \<and> map fst (report s) = [''proteinmpnn_v_48_020.pt'']))"
proof -
  have g1: "map_of (models mpnn_downloader) ''proteinmpnn'' = Some mpnn_config"
    by (simp add: mpnn_downloader_def)
  have g2: "plain_names (cfiles mpnn_config)"
    by (simp add: mpnn_config_def plain_names_def plain_name_def)
  have g3: "\<forall>entry \<in> set (cfiles mpnn_config). \<forall>t. net quiet_world t (url (snd entry)) \<noteq> Uncaught"
    by (simp add: quiet_world_def)
  have g4: "check_disk_space quiet_world (fadd (total_size_of (cfiles mpnn_config)) (of_nat_f 1))"
    using quiet_preflight [of "''proteinmpnn_v_48_020.pt''" True]
    by (simp add: mpnn_config_def mpnn_info_def)
  have h1: "map_of (models optional_downloader) ''proteinmpnn'' = Some optional_config"
    by (simp add: optional_downloader_def)
  have h2: "plain_names (cfiles optional_config)"
    by (simp add: optional_config_def plain_names_def plain_name_def)
  have h3: "\<forall>entry \<in> set (cfiles optional_config). \<forall>t. net quiet_world t (url (snd entry)) \<noteq> Uncaught"
    by (simp add: quiet_world_def)
  have h4: "check_disk_space quiet_world (fadd (total_size_of (cfiles optional_config)) (of_nat_f 1))"
    using quiet_preflight [of "''proteinmpnn_v_48_020.pt''" False]
    by (simp add: optional_config_def optional_info_def)
  have r: "required mpnn_info" "\<not> required optional_info"
    by (simp_all add: mpnn_info_def optional_info_def)
  have first: "\<exists>s. download_model_category mpnn_downloader quiet_world ''proteinmpnn''
              = Some (False, s)
           \<and> map fst (report s) = [''proteinmpnn_v_48_020.pt'']"
    using required_satisfied_iff_no_required_failure [OF g1 g2 g3] g4 r(1)
      quiet_entry_fails [of mpnn_dir "''proteinmpnn_v_48_020.pt''" mpnn_info]
    by (auto simp: mpnn_config_def)
  have second: "\<exists>s. download_model_category optional_downloader quiet_world ''proteinmpnn''
              = Some (True, s)
           \<and> map fst (report s) = [''proteinmpnn_v_48_020.pt'']"
    using required_satisfied_iff_no_required_failure [OF h1 h2 h3] h4 r(2)
    by (auto simp: optional_config_def)
  from first second r quiet_entry_fails show ?thesis
    by blast
qed

text \<open>
  The claim as stated fails when the space check fails: the category returns \<open>False\<close>
  before any entry is handled, here with a single entry that is optional and would not
  have failed.
\<close>

theorem preflight_failure_counterexample:
  "download_model_category optional_downloader full_disk_world ''proteinmpnn''
     = Some (False, start full_disk_world)
   \<and> cfiles optional_config = [(''proteinmpnn_v_48_020.pt'', optional_info)]
   \<and> \<not> required optional_info
   \<and> \<not> entry_fails full_disk_world mpnn_dir (''proteinmpnn_v_48_020.pt'', optional_info)"
proof -
  let ?t = "temp_path mpnn_dir ''proteinmpnn_v_48_020.pt''"
  have h1: "map_of (models optional_downloader) ''proteinmpnn'' = Some optional_config"
    by (simp add: optional_downloader_def)
  have sp: "\<not> check_disk_space full_disk_world
               (fadd (total_size_of (cfiles optional_config)) (of_nat_f 1))"
    by (simp add: check_disk_space_def full_disk_world_def total_size_of_def size_or_0_def
        optional_config_def optional_info_def mpnn_info_def fadd_def of_nat_f_def
        round53_small val_div_gb val_Dbl)
  have dl: "download_file full_disk_world (url optional_info) ?t 3
      = Some (True, write_file (full_disk_world\<lparr>requests := 1\<rparr>) ?t mpnn_weights)"
    by (simp add: download_file_def download_loop_Complete full_disk_world_def mpnn_world_def
        mpnn_weights_def quiet_world_def)
  have v: "verify_file (write_file (full_disk_world\<lparr>requests := 1\<rparr>) ?t mpnn_weights) ?t
             (size_gb optional_info)"
    using half_gb_verifies [of "write_file (full_disk_world\<lparr>requests := 1\<rparr>) ?t mpnn_weights" ?t]
    by (simp add: optional_info_def)
  have ne: "\<not> extract_flag optional_info"
    by (simp add: optional_info_def mpnn_info_def)
  have nf: "\<not> entry_fails full_disk_world mpnn_dir (''proteinmpnn_v_48_020.pt'', optional_info)"
    using v ne by (simp add: entry_fails_def dl del: One_nat_def)
  from download_model_category_stop [OF h1 sp] nf show ?thesis
    by (simp add: optional_config_def optional_info_def)
qed

text \<open>
  Claim C9 fails of the code. The fetcher catches the exceptions of the HTTP library and
  of the operating system only; the \<open>ValueError\<close> that \<open>int\<close> raises on a
  \<open>Content-Length\<close> header that is no number leaves \<open>download_file\<close>, the loop over the
  entries and \<open>download_model_category\<close>. Here the space check passes, the first entry
  of two meets such a header, and the category returns nothing, although the source of
  the second entry serves its file: handled on its own, that entry is downloaded.
\<close>

theorem uncaught_exception_stops_the_category:
  "cfiles pair_config = [(''proteinmpnn_v_48_020.pt'', mpnn_info),
                         (''ligandmpnn_v_32_010_25.pt'', ligand_info)]
   \<and> check_disk_space garbled_world (fadd (total_size_of (cfiles pair_config)) (of_nat_f 1))
   \<and> download_file garbled_world (url mpnn_info)
        (temp_path mpnn_dir ''proteinmpnn_v_48_020.pt'') 3 = None
   \<and> process_file mpnn_dir (start garbled_world) (''ligandmpnn_v_32_010_25.pt'', ligand_info)
       = Some (succeeded (start garbled_world)
          (rename (write_file (garbled_world\<lparr>requests := 1\<rparr>)
                     (temp_path mpnn_dir ''ligandmpnn_v_32_010_25.pt'') mpnn_weights)
             (temp_path mpnn_dir ''ligandmpnn_v_32_010_25.pt'')
             (joinpath mpnn_dir ''ligandmpnn_v_32_010_25.pt''))
          ''ligandmpnn_v_32_010_25.pt'' Downloaded)
   \<and> download_model_category pair_downloader garbled_world ''proteinmpnn'' = None"
proof -
  let ?t1 = "temp_path mpnn_dir ''proteinmpnn_v_48_020.pt''"
  let ?t2 = "temp_path mpnn_dir ''ligandmpnn_v_32_010_25.pt''"
  let ?w2 = "write_file (garbled_world\<lparr>requests := 1\<rparr>) ?t2 mpnn_weights"
  have m: "map_of (models pair_downloader) ''proteinmpnn'' = Some pair_config"
    by (simp add: pair_downloader_def)
  have sp: "check_disk_space garbled_world
              (fadd (total_size_of (cfiles pair_config)) (of_nat_f 1))"
    by (simp add: check_disk_space_def garbled_world_def quiet_world_def total_size_of_def
        size_or_0_def pair_config_def mpnn_info_def ligand_info_def fadd_def of_nat_f_def
        round53_small val_div_gb val_Dbl)
  have u: "url mpnn_info \<noteq> url ligand_info"
    by (simp add: mpnn_info_def ligand_info_def)
  have dl1: "download_file garbled_world (url mpnn_info) ?t1 3 = None"
    using u by (simp add: download_file_def download_loop_unfold garbled_world_def)
  have pl1: "plain_name ''proteinmpnn_v_48_020.pt''" and pl2: "plain_name ''ligandmpnn_v_32_010_25.pt''"
    by (simp_all add: plain_name_def)
  have nv1: "\<not> verify_file garbled_world (joinpath mpnn_dir ''proteinmpnn_v_48_020.pt'')
                (size_gb mpnn_info)"
    by (simp add: verify_file_None garbled_world_def quiet_world_def)
  have p1: "process_file mpnn_dir (start garbled_world) (''proteinmpnn_v_48_020.pt'', mpnn_info)
      = None"
    using nv1 by (simp add: process_file_def Let_def with_suffix_plain [OF pl1] start_def dl1)
  have dl2: "download_file garbled_world (url ligand_info) ?t2 3 = Some (True, ?w2)"
    by (simp add: download_file_def download_loop_Complete garbled_world_def mpnn_weights_def
        quiet_world_def)
  have nv2: "\<not> verify_file garbled_world (joinpath mpnn_dir ''ligandmpnn_v_32_010_25.pt'')
                (size_gb ligand_info)"
    by (simp add: verify_file_None garbled_world_def quiet_world_def)
  have v2: "verify_file ?w2 ?t2 (size_gb ligand_info)"
    using half_gb_verifies [of ?w2 ?t2] by (simp add: ligand_info_def mpnn_info_def)
  have ne: "\<not> extract_flag ligand_info"
    by (simp add: ligand_info_def)
  have p2: "process_file mpnn_dir (start garbled_world)
              (''ligandmpnn_v_32_010_25.pt'', ligand_info)
       = Some (succeeded (start garbled_world) (rename ?w2 ?t2
                 (joinpath mpnn_dir ''ligandmpnn_v_32_010_25.pt''))
          ''ligandmpnn_v_32_010_25.pt'' Downloaded)"
    using nv2 v2 ne
    by (simp add: process_file_def Let_def with_suffix_plain [OF pl2] start_def dl2
        del: One_nat_def)
  have run: "download_model_category pair_downloader garbled_world ''proteinmpnn'' = None"
    unfolding download_model_category_run [OF m sp]
    by (simp add: pair_config_def p1)
  have es: "cfiles pair_config = [(''proteinmpnn_v_48_020.pt'', mpnn_info),
                         (''ligandmpnn_v_32_010_25.pt'', ligand_info)]"
    by (simp add: pair_config_def)
  from es sp dl1 p2 run show ?thesis
    by blast
qed

end
